theory Spec2Isabelle
  imports Complex_Main
begin

section \<open>Python and numpy primitives used by the flight-profile module\<close>

text \<open>
  The module \<^verbatim>\<open>Commerical_Flight_Profile.py\<close> is Python 2: \<^verbatim>\<open>map\<close> returns a list,
  list indexing with a negative index counts from the end, and an index outside the list
  raises \<^verbatim>\<open>IndexError\<close>.  Exceptions are values of the type \<open>error\<close>; a computation
  that may raise returns \<open>error + 'a\<close>, with \<open>Inl\<close> for the exception.
\<close>

datatype error = ValueError | IndexError | KeyError | SolverError

definition bind_err :: "error + 'a \<Rightarrow> ('a \<Rightarrow> error + 'b) \<Rightarrow> error + 'b" where
  "bind_err r f = (case r of Inl e \<Rightarrow> Inl e | Inr x \<Rightarrow> f x)"

text \<open>\<^verbatim>\<open>xs[i]\<close> on a Python list.\<close>

definition py_index :: "'a list \<Rightarrow> int \<Rightarrow> error + 'a" where
  "py_index xs i =
     (if 0 \<le> i \<and> i < int (length xs) then Inr (xs ! nat i)
      else if - int (length xs) \<le> i \<and> i < 0 then Inr (xs ! nat (int (length xs) + i))
      else Inl IndexError)"

text \<open>
  \<^verbatim>\<open>np.linspace(start, stop, num)\<close> (endpoint included), as numpy documents it: a negative
  \<open>num\<close> raises \<^verbatim>\<open>ValueError\<close>, \<open>num = 0\<close> gives the empty array, \<open>num = 1\<close> gives
  \<open>[start]\<close>, and otherwise sample \<open>i\<close> is \<open>start + i * ((stop - start) / (num - 1))\<close>.
  The samples are floats in numpy; here they are exact rationals, which agrees with the
  floats as long as the integers involved are below \<open>2^53\<close>.
\<close>

definition linspace :: "int \<Rightarrow> int \<Rightarrow> int \<Rightarrow> error + rat list" where
  "linspace start stop num =
     (if num < 0 then Inl ValueError
      else if num = 1 then Inr [of_int start]
      else Inr (map (\<lambda>i. of_int start + of_int (int i) * (of_int (stop - start) / of_int (num - 1)))
                    [0..<nat num]))"

text \<open>\<^verbatim>\<open>int(x)\<close> on a float truncates towards zero.\<close>

definition py_int :: "rat \<Rightarrow> int" where
  "py_int r = (if 0 \<le> r then \<lfloor>r\<rfloor> else \<lceil>r\<rceil>)"

text \<open>\<^verbatim>\<open>map(int, np.linspace(start, stop, num))\<close>.\<close>

definition int_linspace :: "int \<Rightarrow> int \<Rightarrow> int \<Rightarrow> error + int list" where
  "int_linspace start stop num = bind_err (linspace start stop num) (\<lambda>ys. Inr (map py_int ys))"

section \<open>Segment counts and index lists\<close>

text \<open>
  The module fixes thirteen segment counts.  Only \<open>Nclimb1\<close>, \<open>Nclimb2\<close> and \<open>Ncruise2\<close>
  are non-zero in the source (3 each) and only they enter the index lists, so they are the
  parameters of the model; the other ten keep the source's value 0.
\<close>

definition Ntakeoff :: int where "Ntakeoff = 0"
definition Ntrans :: int where "Ntrans = 0"
definition Ncruise1 :: int where "Ncruise1 = 0"
definition Ncruiseclimb :: int where "Ncruiseclimb = 0"
definition Ndecent :: int where "Ndecent = 0"
definition Nlanding :: int where "Nlanding = 0"
definition Nresclimb :: int where "Nresclimb = 0"
definition Nresdecent :: int where "Nresdecent = 0"
definition Nreslanding :: int where "Nreslanding = 0"
definition Nreshold :: int where "Nreshold = 0"

definition Nclimb :: "int \<Rightarrow> int \<Rightarrow> int" where
  "Nclimb Nclimb1 Nclimb2 = Nclimb1 + Nclimb2 + Ncruiseclimb"

definition Ncruise :: "int \<Rightarrow> int" where
  "Ncruise Ncruise2 = Ncruise1 + Ncruise2"

definition Nres :: int where
  "Nres = Nresclimb + Nresdecent + Nreslanding + Nreshold"

definition Nseg :: "int \<Rightarrow> int \<Rightarrow> int \<Rightarrow> int" where
  "Nseg Nclimb1 Nclimb2 Ncruise2 =
     Nclimb Nclimb1 Nclimb2 + Ncruise Ncruise2 + Nres + Ntakeoff + Ntrans + Ndecent + Nlanding"

record indices =
  iclimb1 :: "int list"
  iclimb2 :: "int list"
  icruise2 :: "int list"
  izbre :: "int list"

text \<open>
  Lines 48 to 52 of the module.  The arguments of each \<^verbatim>\<open>np.linspace\<close> call are evaluated
  first, so \<^verbatim>\<open>iclimb1[len(iclimb1)-1]\<close> raises before the call when \<open>iclimb1\<close> is empty.
\<close>

definition build_indices :: "int \<Rightarrow> int \<Rightarrow> int \<Rightarrow> error + indices" where
  "build_indices Nclimb1 Nclimb2 Ncruise2 =
     bind_err (int_linspace 0 (Nclimb1 - 1) Nclimb1) (\<lambda>ic1.
     bind_err (py_index ic1 (int (length ic1) - 1)) (\<lambda>last1.
     bind_err (int_linspace (last1 + 1) (Nclimb2 + last1) Nclimb2) (\<lambda>ic2.
     bind_err (py_index ic2 (int (length ic2) - 1)) (\<lambda>last2.
     bind_err (int_linspace (last2 + 1) (Ncruise2 + last2) Ncruise2) (\<lambda>icr2.
     bind_err (int_linspace 0 (Ncruise2 - 1) Ncruise2) (\<lambda>iz.
     Inr \<lparr>iclimb1 = ic1, iclimb2 = ic2, icruise2 = icr2, izbre = iz\<rparr>))))))"

text \<open>The slots \<open>start, start + 1, \<dots>, start + n - 1\<close>.\<close>

definition slots :: "int \<Rightarrow> int \<Rightarrow> int list" where
  "slots start n = map (\<lambda>i. start + int i) [0..<nat n]"

text \<open>\<^verbatim>\<open>range(lo, hi)\<close>, \<^verbatim>\<open>min(xs)\<close> and \<^verbatim>\<open>max(xs)\<close>; the last two raise on an empty list.\<close>

definition py_range :: "int \<Rightarrow> int \<Rightarrow> int list" where
  "py_range lo hi = [lo..hi - 1]"

definition py_min :: "int list \<Rightarrow> error + int" where
  "py_min xs = (if xs = [] then Inl ValueError else Inr (Min (set xs)))"

definition py_max :: "int list \<Rightarrow> error + int" where
  "py_max xs = (if xs = [] then Inl ValueError else Inr (Max (set xs)))"

section \<open>Quantities, units and expressions\<close>

text \<open>
  The module's variables, under their Python identifiers (one-letter identifiers carry the
  suffix \<open>_q\<close>).  \<open>alt10k\<close> and \<open>alt1k\<close> are local to the mission-wide class,
  \<open>climbspeed\<close> to \<open>Climb1\<close>.
\<close>

datatype qname =
    g_q | gamma | R_q
  | a_q | rho | mu | T_q
  | hft | dhft | h_q
  | tmin | thours
  | RngClimb | RngCruise | ReqRngCruise | ReqRng
  | W_e | W_start | W_fuel | W_ftotal | W_end | W_payload | W_total
  | LD | LDmax | Cd0 | K_q
  | S_q
  | V_q | M_q | Vstall
  | RC | theta
  | z_bre
  | TSFC | c1
  | thrust
  | alt10k | alt1k | climbspeed

text \<open>
  A quantity is valued by its magnitude in SI base units, so that a gpkit relation between
  quantities of different units (\<^verbatim>\<open>hft == h\<close>, feet against metres) is the plain relation
  between the magnitudes.  \<open>units s\<close> is the SI magnitude of one unit \<open>s\<close>, for the unit
  strings of the module (as the unit registry behind gpkit defines them).
\<close>

definition units :: "string \<Rightarrow> real" where
  "units s =
     (if s = ''ft'' \<or> s = ''feet'' then 0.3048
      else if s = ''miles'' then 1609.344
      else if s = ''kts'' \<or> s = ''knots'' then 1852 / 3600
      else if s = ''min'' then 60
      else if s = ''hour'' then 3600
      else if s = ''feet/min'' then 0.3048 / 60
      else if s = ''lbf'' then 0.45359237 * 9.80665
      else if s = ''lb/lbf/hr'' \<or> s = ''lb/hr/lbf'' then 1 / (9.80665 * 3600)
      else 1)"

type_synonym varkey = "qname \<times> int option"

datatype expr =
    Num real
  | Sc qname
  | El qname int
  | Add expr expr
  | Mul expr expr
  | Div expr expr
  | Pow expr real

instantiation expr :: "{plus, times, inverse}"
begin

definition plus_expr :: "expr \<Rightarrow> expr \<Rightarrow> expr" where
  "plus_expr x y = Add x y"

definition times_expr :: "expr \<Rightarrow> expr \<Rightarrow> expr" where
  "times_expr x y = Mul x y"

definition divide_expr :: "expr \<Rightarrow> expr \<Rightarrow> expr" where
  "divide_expr x y = Div x y"

definition inverse_expr :: "expr \<Rightarrow> expr" where
  "inverse_expr x = Div (Num 1) x"

instance ..

end

text \<open>
  \<open>Eq\<close>, \<open>Le\<close> and \<open>Ge\<close> are gpkit's \<^verbatim>\<open>==\<close>, \<^verbatim>\<open><=\<close> and \<^verbatim>\<open>>=\<close>.  A constraint on
  arrays is one constraint per element.  An item of a model's constraint list is a plain
  constraint or a \<^verbatim>\<open>TightConstraintSet\<close> of constraints.
\<close>

datatype constr = Eq expr expr | Le expr expr | Ge expr expr

datatype citem = C constr | TCS "constr list"

type_synonym valuation = "varkey \<Rightarrow> real"

fun eval :: "valuation \<Rightarrow> expr \<Rightarrow> real" where
  "eval v (Num c) = c"
| "eval v (Sc q) = v (q, None)"
| "eval v (El q i) = v (q, Some i)"
| "eval v (Add x y) = eval v x + eval v y"
| "eval v (Mul x y) = eval v x * eval v y"
| "eval v (Div x y) = eval v x / eval v y"
| "eval v (Pow x p) = eval v x powr p"

fun holds :: "valuation \<Rightarrow> constr \<Rightarrow> bool" where
  "holds v (Eq x y) = (eval v x = eval v y)"
| "holds v (Le x y) = (eval v x \<le> eval v y)"
| "holds v (Ge x y) = (eval v x \<ge> eval v y)"

fun holds_item :: "valuation \<Rightarrow> citem \<Rightarrow> bool" where
  "holds_item v (C c) = holds v c"
| "holds_item v (TCS cs) = list_all (holds v) cs"

fun vars_expr :: "expr \<Rightarrow> varkey list" where
  "vars_expr (Num c) = []"
| "vars_expr (Sc q) = [(q, None)]"
| "vars_expr (El q i) = [(q, Some i)]"
| "vars_expr (Add x y) = vars_expr x @ vars_expr y"
| "vars_expr (Mul x y) = vars_expr x @ vars_expr y"
| "vars_expr (Div x y) = vars_expr x @ vars_expr y"
| "vars_expr (Pow x p) = vars_expr x"

fun vars_constr :: "constr \<Rightarrow> varkey list" where
  "vars_constr (Eq x y) = vars_expr x @ vars_expr y"
| "vars_constr (Le x y) = vars_expr x @ vars_expr y"
| "vars_constr (Ge x y) = vars_expr x @ vars_expr y"

fun atoms :: "citem \<Rightarrow> constr list" where
  "atoms (C c) = [c]"
| "atoms (TCS cs) = cs"

definition varkeys :: "citem list \<Rightarrow> varkey list" where
  "varkeys cs = concat (map vars_constr (concat (map atoms cs)))"

text \<open>Python's \<^verbatim>\<open>sum(xs)\<close> over an array of expressions: it starts from 0.\<close>

definition py_sum :: "expr list \<Rightarrow> expr" where
  "py_sum xs = foldl (+) (Num 0) xs"

text \<open>
  \<^verbatim>\<open>gpkit.tools.te_exp_minus1(posy, nterm)\<close>, the Taylor expansion of \<open>exp posy - 1\<close>:
  \<^verbatim>\<open>res = 0; factorial_denom = 1\<close>, then for \<open>i\<close> in \<^verbatim>\<open>range(1, nterm + 1)\<close>:
  \<^verbatim>\<open>factorial_denom *= i; res += posy**i / factorial_denom\<close>.
\<close>

definition te_exp_minus1 :: "expr \<Rightarrow> nat \<Rightarrow> expr" where
  "te_exp_minus1 posy nterm =
     snd (foldl (\<lambda>(factorial_denom, res) i.
                   (factorial_denom * i, res + Pow posy (real i) / Num (real (factorial_denom * i))))
                (1, Num 0) [1..<nterm + 1])"

section \<open>Declarations and models\<close>

datatype shape = Scalar | Vector int

text \<open>
  The declared shape of every variable (\<^verbatim>\<open>Variable\<close> or \<^verbatim>\<open>VectorVariable(n, \<dots>)\<close>) and the
  value it is declared with, if any.  A declared value is a substitution: the solver treats
  the variable as that constant.
\<close>

definition declared_shape :: "int \<Rightarrow> int \<Rightarrow> int \<Rightarrow> qname \<Rightarrow> shape" where
  "declared_shape Nclimb1 Nclimb2 Ncruise2 q =
     (if q \<in> {a_q, rho, mu, T_q, hft, h_q, tmin, thours, W_start, W_fuel, W_end, LD, V_q, M_q,
               RC, theta, z_bre, TSFC}
        then Vector (Nseg Nclimb1 Nclimb2 Ncruise2)
      else if q \<in> {dhft, RngClimb} then Vector (Nclimb Nclimb1 Nclimb2)
      else if q = RngCruise then Vector (Ncruise2 + Ncruise1)
      else Scalar)"

definition declared_value :: "qname \<Rightarrow> real option" where
  "declared_value q =
     (if q = g_q then Some (9.81 * units ''m/s^2'')
      else if q = gamma then Some (1.4 * units ''-'')
      else if q = R_q then Some (287 * units ''J/kg/K'')
      else if q = ReqRng then Some (3000 * units ''miles'')
      else if q = LDmax then Some (15 * units ''-'')
      else if q = Cd0 then Some (0.025 * units ''-'')
      else if q = K_q then Some (0.9 * units ''-'')
      else if q = S_q then Some (124.58 * units ''m^2'')
      else if q = Vstall then Some (120 * units ''knots'')
      else if q = c1 then Some (2 * units ''lb/lbf/hr'')
      else if q = thrust then Some (87000 * units ''N'')
      else if q = alt10k then Some (10000 * units ''feet'')
      else if q = alt1k then Some (1500 * units ''feet'')
      else if q = climbspeed then Some (250 * units ''kts'')
      else None)"

record model =
  cost :: "expr option"
  constraints :: "citem list"
  substitutions :: "varkey \<rightharpoonup> real"

text \<open>
  \<^verbatim>\<open>Model.__init__(self, cost, constraints)\<close>: the model's substitutions are the declared
  values of the variables that occur in its constraints.
\<close>

definition declared_substitutions :: "citem list \<Rightarrow> varkey \<rightharpoonup> real" where
  "declared_substitutions cs =
     (\<lambda>k. if k \<in> set (varkeys cs) \<and> snd k = None then declared_value (fst k) else None)"

definition Model :: "expr option \<Rightarrow> citem list \<Rightarrow> model" where
  "Model co cs = \<lparr>cost = co, constraints = cs, substitutions = declared_substitutions cs\<rparr>"

text \<open>
  A solution of a geometric or signomial program gives every variable a positive value.
  \<open>satisfies v cs\<close>: the positive valuation \<open>v\<close> meets every constraint of \<open>cs\<close>.
  \<open>feasible m v\<close>: moreover \<open>v\<close> gives every substituted variable its substituted value.
\<close>

definition satisfies :: "valuation \<Rightarrow> citem list \<Rightarrow> bool" where
  "satisfies v cs \<longleftrightarrow> (\<forall>k. 0 < v k) \<and> list_all (holds_item v) cs"

definition feasible :: "model \<Rightarrow> valuation \<Rightarrow> bool" where
  "feasible m v \<longleftrightarrow>
     satisfies v (constraints m) \<and> (\<forall>k c. substitutions m k = Some c \<longrightarrow> v k = c)"

section \<open>The mission-wide constraints\<close>

definition CommericalMissionConstraints :: "int \<Rightarrow> int \<Rightarrow> int \<Rightarrow> indices \<Rightarrow> model" where
  "CommericalMissionConstraints Nclimb1 Nclimb2 Ncruise2 ix =
     (let N = Nseg Nclimb1 Nclimb2 Ncruise2;
          NC = Nclimb Nclimb1 Nclimb2;
          segs = py_range 0 N
      in Model (Some (Sc W_total))
        (map (\<lambda>i. C (Eq (El a_q i) (Pow (Sc gamma * Sc R_q * El T_q i) 0.5))) segs
         @ map (\<lambda>i. C (Eq (El hft i) (El h_q i))) segs
         @ map (\<lambda>i. C (Eq (El tmin i) (El thours i))) segs
         @ [TCS [Le (Sc W_e + Sc W_payload + Sc W_ftotal) (Sc W_total)],
            C (Eq (El W_start 0) (Sc W_total)),
            TCS [Le (Sc W_e + Sc W_payload) (El W_end (N - 1))],
            TCS [Ge (Sc W_ftotal) (py_sum (map (El W_fuel) segs))],
            C (Eq (El hft (Ntakeoff + Nclimb1 - 1)) (Sc alt10k)),
            TCS [Ge (py_sum (map (El RngClimb) (py_range 0 NC))
                      + py_sum (map (El RngCruise) (py_range 0 (Ncruise2 + Ncruise1))))
                    (Sc ReqRng)],
            TCS [Ge (Sc ReqRngCruise) (py_sum (map (El RngCruise) (py_range 0 (Ncruise2 + Ncruise1))))]]
         @ map (\<lambda>i. C (Eq (El hft i) (El hft (NC - 1)))) (icruise2 ix)
         @ map (\<lambda>i. C (Eq (El W_start i) (El W_end (i - 1)))) (py_range 1 N)
         @ map (\<lambda>i. TCS [Ge (El W_start i) (El W_end i + El W_fuel i)]) (py_range 0 N)))"

section \<open>The climb phases\<close>

definition Climb1 :: "int \<Rightarrow> int \<Rightarrow> int \<Rightarrow> indices \<Rightarrow> model" where
  "Climb1 Nclimb1 Nclimb2 Ncruise2 ix =
     (let ic = iclimb1 ix in
      Model None
        (map (\<lambda>i. C (Le (El V_q i) (Sc climbspeed))) ic
         @ map (\<lambda>i. C (Ge (El V_q i) (Sc Vstall))) ic
         @ [TCS (map (\<lambda>i. Le (El RC i + Num 0.5 * Pow (El V_q i) 3 * El rho i * Sc S_q / El W_start i * Sc Cd0
                               + El W_start i / Sc S_q * Num 2 * Sc K_q / El rho i / El V_q i)
                              (El V_q i * Sc thrust / El W_start i)) ic)]
         @ map (\<lambda>i. C (Eq (El theta i * El V_q i) (El RC i))) ic
         @ map (\<lambda>i. C (Eq (El dhft i) (El tmin i * El RC i))) ic
         @ [TCS (map (\<lambda>i. Le (El RngClimb i + Num 0.5 * El thours i * El V_q i * Pow (El theta i) 2)
                              (El thours i * El V_q i)) ic)]
         @ map (\<lambda>i. C (Eq (El W_fuel i) (Sc g_q * El TSFC i * El thours i * Sc thrust))) ic
         @ map (\<lambda>i. if i = 0
                     then TCS [Le (El hft i) (Num (1500 * units ''ft'') + El dhft i)]
                     else TCS [Le (El hft i) (El hft (i - 1) + El dhft i)])
               (py_range 0 (Nclimb Nclimb1 Nclimb2))))"

definition Climb2 :: "int \<Rightarrow> int \<Rightarrow> int \<Rightarrow> indices \<Rightarrow> model" where
  "Climb2 Nclimb1 Nclimb2 Ncruise2 ix =
     (let ic = iclimb2 ix in
      Model None
        (map (\<lambda>i. C (Le (El V_q i) (Num (500 * units ''kts'')))) ic
         @ map (\<lambda>i. C (Ge (El V_q i) (Sc Vstall))) ic
         @ [TCS (map (\<lambda>i. Le (El RC i + Num 0.5 * Pow (El V_q i) 3 * El rho i * Sc S_q / El W_start i * Sc Cd0
                               + El W_start i / Sc S_q * Num 2 * Sc K_q / El rho i / El V_q i)
                              (El V_q i * Sc thrust / El W_start i)) ic)]
         @ map (\<lambda>i. C (Eq (El theta i * El V_q i) (El RC i))) ic
         @ map (\<lambda>i. C (Eq (El dhft i) (El tmin i * El RC i))) ic
         @ [TCS (map (\<lambda>i. Le (El RngClimb i + Num 0.5 * El thours i * El V_q i * Pow (El theta i) 2)
                              (El thours i * El V_q i)) ic)]
         @ map (\<lambda>i. C (Eq (El W_fuel i) (Sc g_q * El TSFC i * El thours i * Sc thrust))) ic))"

section \<open>The second cruise phase\<close>

text \<open>
  Arrays indexed by \<open>icruise2\<close> meet arrays indexed by \<open>izbre\<close> element by element.  The
  loop bounds \<^verbatim>\<open>min(izbre)\<close> and \<^verbatim>\<open>max(izbre)\<close> raise when \<open>izbre\<close> is empty.
\<close>

definition Cruise2 :: "int \<Rightarrow> int \<Rightarrow> int \<Rightarrow> indices \<Rightarrow> error + model" where
  "Cruise2 Nclimb1 Nclimb2 Ncruise2 ix =
     (let icr = icruise2 ix; iz = izbre ix; pairs = zip icr iz in
      bind_err (py_min iz) (\<lambda>lo.
      bind_err (py_max iz) (\<lambda>hi.
      Inr (Model None
        (map (\<lambda>i. C (Eq (El hft i) (Num (35000 * units ''ft'')))) icr
         @ [TCS (map (\<lambda>(i, k). Ge (El W_fuel i / El W_end i) (te_exp_minus1 (El z_bre k) 3)) pairs)]
         @ [TCS (map (\<lambda>(i, k). Le (El RngCruise k)
                                   (El z_bre k * El LD i * El V_q i / (El TSFC i * Sc g_q))) pairs)]
         @ map (\<lambda>(i, k). C (Eq (El thours i * El V_q i) (El RngCruise k))) pairs
         @ map (\<lambda>i. TCS [Ge (El RngCruise i)
                             (Num (of_int (i + 1)) * Sc ReqRngCruise
                                / Num (of_int (Nseg Nclimb1 Nclimb2 Ncruise2)))])
               (py_range lo (hi + 1))
         @ map (\<lambda>i. C (Eq (El TSFC i) (Num (1.4 * units ''lb/lbf/hr'')))) icr
         @ map (\<lambda>i. C (Eq (El LD i) (Num 10))) icr
         @ map (\<lambda>i. C (Eq (El V_q i) (Num (420 * units ''kts'')))) icr
         @ map (\<lambda>i. C (Eq (El TSFC i) (Sc c1))) (iclimb2 ix)
         @ map (\<lambda>i. C (Eq (El rho i) (Num (1.225 * units ''kg/m^3'')))) (iclimb2 ix)
         @ map (\<lambda>i. C (Eq (El TSFC i) (Sc c1))) (iclimb1 ix)
         @ map (\<lambda>i. C (Eq (El rho i) (Num (1.225 * units ''kg/m^3'')))) (iclimb1 ix)
         @ [C (Eq (Sc W_e) (Num (40000 * units ''N''))),
            C (Eq (Sc W_payload) (Num (400000 * units ''N'')))]
         @ map (\<lambda>i. C (Eq (El T_q i) (Num (273 * units ''K''))))
               (py_range 0 (Nseg Nclimb1 Nclimb2 Ncruise2)))))))"

section \<open>The linked mission model\<close>

text \<open>
  \<^verbatim>\<open>LinkedConstraintSet\<close> identifies the variables of the submodels that have the same
  name, which the shared \<open>varkey\<close>s do already; the linked model holds the constraints of
  the four submodels and the cost of the mission-wide one.  The index lists are built when
  the module is loaded, before any submodel.
\<close>

definition CommercialAircraft :: "int \<Rightarrow> int \<Rightarrow> int \<Rightarrow> error + model" where
  "CommercialAircraft Nclimb1 Nclimb2 Ncruise2 =
     bind_err (build_indices Nclimb1 Nclimb2 Ncruise2) (\<lambda>ix.
       let cmc = CommericalMissionConstraints Nclimb1 Nclimb2 Ncruise2 ix;
           climb1 = Climb1 Nclimb1 Nclimb2 Ncruise2 ix;
           climb2 = Climb2 Nclimb1 Nclimb2 Ncruise2 ix
       in bind_err (Cruise2 Nclimb1 Nclimb2 Ncruise2 ix) (\<lambda>c2.
            Inr (Model (cost cmc)
                   (concat (map constraints [cmc, climb1, climb2, c2])))))"

text \<open>
  The script at the end of the module: build the linked model, then solve it.  The solver
  is outside the module and is a parameter here.
\<close>

definition main_script :: "(model \<Rightarrow> error + 'sol) \<Rightarrow> int \<Rightarrow> int \<Rightarrow> int \<Rightarrow> error + 'sol" where
  "main_script localsolve Nclimb1 Nclimb2 Ncruise2 =
     bind_err (CommercialAircraft Nclimb1 Nclimb2 Ncruise2) localsolve"

text \<open>
  A variable occurrence agrees with the declarations: a scalar is used without index, a
  vector with an index inside its declared length.
\<close>

definition well_indexed :: "int \<Rightarrow> int \<Rightarrow> int \<Rightarrow> varkey \<Rightarrow> bool" where
  "well_indexed Nclimb1 Nclimb2 Ncruise2 k =
     (case snd k of
        None \<Rightarrow> declared_shape Nclimb1 Nclimb2 Ncruise2 (fst k) = Scalar
      | Some i \<Rightarrow> (case declared_shape Nclimb1 Nclimb2 Ncruise2 (fst k) of
                    Scalar \<Rightarrow> False | Vector n \<Rightarrow> 0 \<le> i \<and> i < n))"


section \<open>A sample solution\<close>

text \<open>
  A positive valuation for the source's configuration of 3 + 3 + 3 segments.  Its
  constants are the declared ones, except for the thrust (\<open>10\<^sup>6\<close> N) and the drag
  parameter \<open>K\<close> (0.01).  Each climb segment lasts 100 s at 125 m/s and 30 m/s rate of
  climb; the cruise segments cover 1600, 1600 and 1700 km.
\<close>

definition sample_scalar :: "qname \<Rightarrow> real" where
  "sample_scalar q =
     (if q = thrust then 1000000
      else if q = K_q then 0.01
      else if q = ReqRngCruise then 4900000
      else if q = W_e then 40000
      else if q = W_payload then 400000
      else if q = W_ftotal then 1250000
      else if q = W_total then 1730000
      else (case declared_value q of Some c \<Rightarrow> c | None \<Rightarrow> 1))"

definition sample_altitude :: "int \<Rightarrow> real" where
  "sample_altitude i =
     (if i \<le> 0 then 4000 else if i = 1 then 7000 else if i = 2 then 10000
      else if i = 3 then 19000 else if i = 4 then 27000 else 35000) * units ''ft''"

definition sample_range :: "int \<Rightarrow> real" where
  "sample_range k = (if k \<le> 1 then 1600000 else 1700000)"

definition sample_elem :: "qname \<Rightarrow> int \<Rightarrow> real" where
  "sample_elem q i =
     (if q = a_q then (1.4 * 287 * 273) powr 0.5
      else if q = T_q then 273
      else if q = rho then 1.225
      else if q = hft \<or> q = h_q then sample_altitude i
      else if q = dhft then 3000
      else if q = tmin \<or> q = thours then
        (if i < 6 then 100 else sample_range (i - 6) / (420 * units ''kts''))
      else if q = RngClimb then 12000
      else if q = RngCruise then sample_range i
      else if q = W_start then
        (if i \<le> 5 then 1730000 - 60000 * of_int i
         else if i = 6 then 1372000 else if i = 7 then 980000 else 700000)
      else if q = W_end then
        (if i \<le> 4 then 1670000 - 60000 * of_int i
         else if i = 5 then 1372000 else if i = 6 then 980000
         else if i = 7 then 700000 else 500000)
      else if q = W_fuel then
        (if i < 6 then 9.81 * (2 * units ''lb/lbf/hr'') * 100 * 1000000
         else if i = 6 then 392000 else if i = 7 then 280000 else 200000)
      else if q = LD then 10
      else if q = V_q then (if i < 6 then 125 else 420 * units ''kts'')
      else if q = RC then 30
      else if q = theta then 0.24
      else if q = z_bre then 0.32
      else if q = TSFC then (if i < 6 then 2 else 1.4) * units ''lb/lbf/hr''
      else 1)"

definition sample_solution :: valuation where
  "sample_solution k = (case snd k of None \<Rightarrow> sample_scalar (fst k) | Some i \<Rightarrow> sample_elem (fst k) i)"

text \<open>The index lists of the source's configuration.\<close>

definition ix333 :: indices where
  "ix333 = \<lparr>iclimb1 = slots 0 3, iclimb2 = slots 3 3, icruise2 = slots 6 3, izbre = slots 0 3\<rparr>"

section \<open>The contour plot over a swept substitution\<close>

text \<open>
  \<^verbatim>\<open>poor_mans_contour\<close> of \<^verbatim>\<open>solar_hale/plotting.py\<close> works on any gpkit model.  What it
  touches of the model is the dictionary \<^verbatim>\<open>model.substitutions\<close>, from variable names to a
  fixed value or to \<^verbatim>\<open>("sweep", values)\<close>, and the variables' labels and units.  The
  solver, the printing of a number and \<^verbatim>\<open>unitstr\<close> are outside the module and are
  parameters; the solver may raise, and it may change the model it is called on.  The
  matplotlib axes are a record of what was drawn.
\<close>

datatype subst = Value real | Sweep "real list"

record vardescr =
  descr :: "string \<rightharpoonup> string"
  var_units :: string

record contour_model =
  subs :: "string \<rightharpoonup> subst"
  variables :: "string \<rightharpoonup> vardescr"

type_synonym solution = "string \<rightharpoonup> real list"

record line2d =
  xdata :: "real list"
  ydata :: "real list"
  style :: string
  line_label :: "string option"

record axes =
  plotted :: "line2d list"
  xlabel :: string
  ylabel :: string
  ylim :: "(real \<times> real) option"
  legend :: "line2d list option"
  grid :: bool

record externals =
  solve :: "contour_model \<Rightarrow> error + (solution \<times> contour_model)"
  str_of :: "real \<Rightarrow> string"
  unitstr :: "string \<Rightarrow> string"

text \<open>\<^verbatim>\<open>d[k]\<close> on a dictionary, and \<^verbatim>\<open>sol(name)\<close> on a solution.\<close>

definition py_getitem :: "('k \<rightharpoonup> 'v) \<Rightarrow> 'k \<Rightarrow> error + 'v" where
  "py_getitem d k = (case d k of None \<Rightarrow> Inl KeyError | Some x \<Rightarrow> Inr x)"

definition subplots :: axes where
  "subplots = \<lparr>plotted = [], xlabel = [], ylabel = [], ylim = None, legend = None, grid = False\<rparr>"

definition plot :: "axes \<Rightarrow> line2d \<Rightarrow> axes" where
  "plot ax l = ax\<lparr>plotted := plotted ax @ [l]\<rparr>"

text \<open>The loop \<^verbatim>\<open>for val in zsweep\<close>; its state is the model, the axes and \<open>lines\<close>.\<close>

fun zsweep_loop ::
  "externals \<Rightarrow> string \<Rightarrow> string \<Rightarrow> string \<Rightarrow> real list \<Rightarrow> contour_model \<Rightarrow> axes \<Rightarrow> line2d list
     \<Rightarrow> error + (contour_model \<times> axes \<times> line2d list)" where
  "zsweep_loop ext xvarname zvarname yvarname [] model ax lines = Inr (model, ax, lines)"
| "zsweep_loop ext xvarname zvarname yvarname (val # rest) model ax lines =
     (let model1 = model\<lparr>subs := (subs model)(zvarname \<mapsto> Value val)\<rparr> in
      bind_err (solve ext model1) (\<lambda>(sol, model2).
      bind_err (py_getitem sol xvarname) (\<lambda>xs.
      bind_err (py_getitem sol yvarname) (\<lambda>ys.
        let l = \<lparr>xdata = xs, ydata = ys, style = [],
                 line_label = Some (zvarname @ '': '' @ str_of ext val)\<rparr>
        in zsweep_loop ext xvarname zvarname yvarname rest model2 (plot ax l) (lines @ [l])))))"

text \<open>\<^verbatim>\<open>"%s [%s]" % (model[name].descr["label"], unitstr(model[name].units))\<close>.\<close>

definition axis_label :: "externals \<Rightarrow> contour_model \<Rightarrow> string \<Rightarrow> error + string" where
  "axis_label ext model name =
     bind_err (py_getitem (variables model) name) (\<lambda>var.
     bind_err (py_getitem (descr var) ''label'') (\<lambda>lab.
       Inr (lab @ '' ['' @ unitstr ext (var_units var) @ '']'')))"

text \<open>
  \<^verbatim>\<open>if vref:\<close> and \<^verbatim>\<open>if href:\<close> take \<^verbatim>\<open>None\<close> and 0 for false: \<open>truthy\<close> gives
  the number when the test succeeds.  A successful call returns the axes (the figure
  carries nothing else) together with the model as the call leaves it.
\<close>

definition truthy :: "real option \<Rightarrow> real option" where
  "truthy r = (case r of None \<Rightarrow> None | Some x \<Rightarrow> if x = 0 then None else Some x)"

definition poor_mans_contour ::
  "externals \<Rightarrow> contour_model \<Rightarrow> string \<Rightarrow> real list \<Rightarrow> string \<Rightarrow> real list \<Rightarrow> string \<Rightarrow> real list
     \<Rightarrow> real option \<Rightarrow> string option \<Rightarrow> real option \<Rightarrow> string option
     \<Rightarrow> error + (contour_model \<times> axes)" where
  "poor_mans_contour ext model xvarname xsweep zvarname zsweep yvarname ylimits
       vref vrefname href hrefname =
     bind_err (py_getitem (subs model) xvarname) (\<lambda>x_old.
     bind_err (py_getitem (subs model) zvarname) (\<lambda>z_old.
     let model1 = model\<lparr>subs := (subs model)(xvarname \<mapsto> Sweep xsweep)\<rparr> in
     bind_err (zsweep_loop ext xvarname zvarname yvarname zsweep model1 subplots []) (\<lambda>(model2, ax, lines).
     let model3 = model2\<lparr>subs := (subs model2)(xvarname \<mapsto> x_old)\<rparr>;
         model4 = model3\<lparr>subs := (subs model3)(zvarname \<mapsto> z_old)\<rparr> in
     bind_err (axis_label ext model4 xvarname) (\<lambda>xl.
     bind_err (axis_label ext model4 yvarname) (\<lambda>yl.
     bind_err (py_index ylimits 0) (\<lambda>y0.
     bind_err (py_index ylimits 1) (\<lambda>y1.
     let ax1 = ax\<lparr>xlabel := xl, ylabel := yl, ylim := Some (y0, y1)\<rparr> in
     bind_err (case truthy vref of
                 Some r \<Rightarrow>
                   (let l = \<lparr>xdata = [r, r], ydata = ylimits, style = ''r--'', line_label = vrefname\<rparr>
                    in Inr (plot ax1 l, lines @ [l]))
               | None \<Rightarrow> Inr (ax1, lines)) (\<lambda>(ax2, lines2).
     bind_err (case truthy href of
                 Some r \<Rightarrow>
                   bind_err (py_index xsweep 0) (\<lambda>x0.
                   bind_err (py_index xsweep (- 1)) (\<lambda>xn.
                     let l = \<lparr>xdata = [x0, xn], ydata = [r, r], style = ''r--'', line_label = hrefname\<rparr>
                     in Inr (plot ax2 l, lines2 @ [l])))
               | None \<Rightarrow> Inr (ax2, lines2)) (\<lambda>(ax3, lines3).
       Inr (model4, ax3\<lparr>legend := Some lines3, grid := True\<rparr>))))))))))"

text \<open>A model, a solver and arguments on which the call returns.\<close>

definition demo_model :: contour_model where
  "demo_model =
     \<lparr>subs = [''W'' \<mapsto> Value 10, ''h'' \<mapsto> Sweep [1, 2]],
      variables = [''W'' \<mapsto> \<lparr>descr = [''label'' \<mapsto> ''weight''], var_units = ''lbf''\<rparr>,
                   ''D'' \<mapsto> \<lparr>descr = [''label'' \<mapsto> ''drag''], var_units = ''lbf''\<rparr>]\<rparr>"

definition demo_externals :: externals where
  "demo_externals =
     \<lparr>solve = (\<lambda>model. Inr ([''W'' \<mapsto> [5, 6], ''D'' \<mapsto> [1, 2]], model)),
      str_of = (\<lambda>r. ''?''),
      unitstr = (\<lambda>u. u)\<rparr>"

lemma bind_err_Inr [simp]: "bind_err (Inr x) f = f x"
  by (simp add: bind_err_def)

lemma bind_err_Inl [simp]: "bind_err (Inl e) f = Inl e"
  by (simp add: bind_err_def)

lemma py_int_of_int [simp]: "py_int (of_int k) = k"
  by (simp add: py_int_def)

lemma int_linspace_neg: "num < 0 \<Longrightarrow> int_linspace start stop num = Inl ValueError"
  by (simp add: int_linspace_def linspace_def)

lemma int_linspace_slots:
  assumes "0 \<le> num"
  shows "int_linspace start (start + num - 1) num = Inr (slots start num)"
proof (cases "num = 1")
  case True
  then show ?thesis
    by (simp add: int_linspace_def linspace_def slots_def)
next
  case False
  have step: "(of_int (start + num - 1 - start) :: rat) / of_int (num - 1) = 1" if "num \<noteq> 0"
    using that False by simp
  have "map (\<lambda>i. py_int (of_int start + of_int (int i) * (of_int (start + num - 1 - start) / of_int (num - 1))))
          [0..<nat num] = map (\<lambda>i. start + int i) [0..<nat num]"
  proof (cases "num = 0")
    case True
    then show ?thesis by simp
  next
    case nz: False
    have "py_int (of_int start + of_int (int i) * (of_int (start + num - 1 - start) / of_int (num - 1)))
            = start + int i" for i
    proof -
      have "(of_int start :: rat) + of_int (int i) * (of_int (start + num - 1 - start) / of_int (num - 1))
              = of_int (start + int i)"
        using step [OF nz] by simp
      then show ?thesis by (simp only: py_int_of_int)
    qed
    then show ?thesis by simp
  qed
  with assms False show ?thesis
    by (simp add: int_linspace_def linspace_def slots_def comp_def)
qed

lemma length_slots [simp]: "length (slots start n) = nat n"
  by (simp add: slots_def)

lemma slots_nth: "i < nat n \<Longrightarrow> slots start n ! i = start + int i"
  by (simp add: slots_def)

lemma set_slots: "set (slots start n) = {start ..< start + n}"
proof -
  have "set (slots start n) = (\<lambda>i. start + int i) ` {0..<nat n}"
    by (simp add: slots_def)
  also have "\<dots> = {start ..< start + n}"
  proof (intro set_eqI iffI)
    fix x assume "x \<in> (\<lambda>i. start + int i) ` {0..<nat n}"
    then show "x \<in> {start ..< start + n}" by auto
  next
    fix x assume x: "x \<in> {start ..< start + n}"
    then have "x = start + int (nat (x - start))" "nat (x - start) \<in> {0..<nat n}"
      by auto
    then show "x \<in> (\<lambda>i. start + int i) ` {0..<nat n}" by blast
  qed
  finally show ?thesis .
qed

lemma py_index_last_slots:
  "0 < n \<Longrightarrow> py_index (slots start n) (int (length (slots start n)) - 1) = Inr (start + n - 1)"
  by (simp add: py_index_def slots_nth)

lemma py_index_last_Nil: "py_index [] (int (length ([] :: int list)) - 1) = (Inl IndexError :: error + int)"
  by (simp add: py_index_def)

lemma build_indices_ok:
  assumes "0 < Nclimb1" "0 < Nclimb2" "0 \<le> Ncruise2"
  shows "build_indices Nclimb1 Nclimb2 Ncruise2 =
           Inr \<lparr>iclimb1 = slots 0 Nclimb1, iclimb2 = slots Nclimb1 Nclimb2,
                icruise2 = slots (Nclimb1 + Nclimb2) Ncruise2, izbre = slots 0 Ncruise2\<rparr>"
proof -
  have a: "int_linspace 0 (Nclimb1 - 1) Nclimb1 = Inr (slots 0 Nclimb1)"
    using int_linspace_slots [of Nclimb1 0] assms by simp
  have b: "int_linspace (0 + Nclimb1 - 1 + 1) (Nclimb2 + (0 + Nclimb1 - 1)) Nclimb2 = Inr (slots Nclimb1 Nclimb2)"
    using int_linspace_slots [of Nclimb2 Nclimb1] assms by (simp add: algebra_simps)
  have c: "int_linspace (Nclimb1 + Nclimb2 - 1 + 1) (Ncruise2 + (Nclimb1 + Nclimb2 - 1)) Ncruise2
             = Inr (slots (Nclimb1 + Nclimb2) Ncruise2)"
    using int_linspace_slots [of Ncruise2 "Nclimb1 + Nclimb2"] assms by (simp add: algebra_simps)
  have d: "int_linspace 0 (Ncruise2 - 1) Ncruise2 = Inr (slots 0 Ncruise2)"
    using int_linspace_slots [of Ncruise2 0] assms by simp
  show ?thesis
    unfolding build_indices_def
    by (simp only: a b c d bind_err_Inr py_index_last_slots [OF assms(1)] py_index_last_slots [OF assms(2)])
qed


subsection \<open>When the index lists are built\<close>

lemma slots_upto: "slots start n = [start .. start + n - 1]"
proof (rule nth_equalityI)
  show "length (slots start n) = length [start .. start + n - 1]" by simp
next
  fix i assume "i < length (slots start n)"
  then show "slots start n ! i = [start .. start + n - 1] ! i"
    by (simp add: slots_nth)
qed

lemma slots_Nil [simp]: "n \<le> 0 \<Longrightarrow> slots start n = []"
  by (simp add: slots_def)

lemma build_indices_neg1: "Nclimb1 < 0 \<Longrightarrow> build_indices Nclimb1 Nclimb2 Ncruise2 = Inl ValueError"
  by (simp add: build_indices_def int_linspace_neg)

lemma build_indices_zero1: "build_indices 0 Nclimb2 Ncruise2 = Inl IndexError"
proof -
  have "int_linspace 0 (0 - 1) 0 = Inr []"
    using int_linspace_slots [of 0 0] by simp
  then show ?thesis
    by (simp add: build_indices_def py_index_def)
qed

lemma build_indices_neg2:
  assumes "0 < Nclimb1" "Nclimb2 < 0"
  shows "build_indices Nclimb1 Nclimb2 Ncruise2 = Inl ValueError"
proof -
  have "int_linspace 0 (Nclimb1 - 1) Nclimb1 = Inr (slots 0 Nclimb1)"
    using int_linspace_slots [of Nclimb1 0] assms by simp
  then show ?thesis
    unfolding build_indices_def
    by (simp only: bind_err_Inr bind_err_Inl py_index_last_slots [OF assms(1)] int_linspace_neg [OF assms(2)])
qed

lemma build_indices_zero2:
  assumes "0 < Nclimb1"
  shows "build_indices Nclimb1 0 Ncruise2 = Inl IndexError"
proof -
  have a: "int_linspace 0 (Nclimb1 - 1) Nclimb1 = Inr (slots 0 Nclimb1)"
    using int_linspace_slots [of Nclimb1 0] assms by simp
  have b: "int_linspace (0 + Nclimb1 - 1 + 1) (0 + (0 + Nclimb1 - 1)) 0 = Inr []"
    using int_linspace_slots [of 0 Nclimb1] by simp
  show ?thesis
    unfolding build_indices_def
    by (simp only: a b bind_err_Inr bind_err_Inl py_index_last_slots [OF assms(1)] py_index_last_Nil)
qed

lemma build_indices_neg3:
  assumes "0 < Nclimb1" "0 < Nclimb2" "Ncruise2 < 0"
  shows "build_indices Nclimb1 Nclimb2 Ncruise2 = Inl ValueError"
proof -
  have a: "int_linspace 0 (Nclimb1 - 1) Nclimb1 = Inr (slots 0 Nclimb1)"
    using int_linspace_slots [of Nclimb1 0] assms by simp
  have b: "int_linspace (0 + Nclimb1 - 1 + 1) (Nclimb2 + (0 + Nclimb1 - 1)) Nclimb2 = Inr (slots Nclimb1 Nclimb2)"
    using int_linspace_slots [of Nclimb2 Nclimb1] assms by (simp add: algebra_simps)
  show ?thesis
    unfolding build_indices_def
    by (simp only: a b bind_err_Inr bind_err_Inl py_index_last_slots [OF assms(1)]
          py_index_last_slots [OF assms(2)] int_linspace_neg [OF assms(3)])
qed

lemma build_indices_fails:
  assumes "\<not> (0 < Nclimb1 \<and> 0 < Nclimb2 \<and> 0 \<le> Ncruise2)"
  shows "build_indices Nclimb1 Nclimb2 Ncruise2 = Inl ValueError
           \<or> build_indices Nclimb1 Nclimb2 Ncruise2 = Inl IndexError"
proof -
  consider "Nclimb1 < 0" | "Nclimb1 = 0" | "0 < Nclimb1" "Nclimb2 < 0" | "0 < Nclimb1" "Nclimb2 = 0"
    | "0 < Nclimb1" "0 < Nclimb2" "Ncruise2 < 0"
    using assms by linarith
  then show ?thesis
  proof cases
    case 1 then show ?thesis by (simp add: build_indices_neg1)
  next
    case 2 then show ?thesis by (simp add: build_indices_zero1)
  next
    case 3 then show ?thesis by (simp add: build_indices_neg2)
  next
    case 4 then show ?thesis by (simp add: build_indices_zero2)
  next
    case 5 then show ?thesis by (simp add: build_indices_neg3)
  qed
qed

lemma build_indices_InrD:
  assumes "build_indices Nclimb1 Nclimb2 Ncruise2 = Inr ix"
  shows "0 < Nclimb1" "0 < Nclimb2" "0 \<le> Ncruise2"
    "ix = \<lparr>iclimb1 = slots 0 Nclimb1, iclimb2 = slots Nclimb1 Nclimb2,
           icruise2 = slots (Nclimb1 + Nclimb2) Ncruise2, izbre = slots 0 Ncruise2\<rparr>"
proof -
  have ok: "0 < Nclimb1 \<and> 0 < Nclimb2 \<and> 0 \<le> Ncruise2"
    using build_indices_fails [of Nclimb1 Nclimb2 Ncruise2] assms by fastforce
  then show "0 < Nclimb1" "0 < Nclimb2" "0 \<le> Ncruise2" by simp_all
  from ok assms show "ix = \<lparr>iclimb1 = slots 0 Nclimb1, iclimb2 = slots Nclimb1 Nclimb2,
           icruise2 = slots (Nclimb1 + Nclimb2) Ncruise2, izbre = slots 0 Ncruise2\<rparr>"
    by (simp add: build_indices_ok)
qed

lemma slots_append: "0 \<le> n \<Longrightarrow> 0 \<le> k \<Longrightarrow> slots start n @ slots (start + n) k = slots start (n + k)"
proof (rule nth_equalityI)
  assume "0 \<le> n" "0 \<le> k"
  then show "length (slots start n @ slots (start + n) k) = length (slots start (n + k))"
    by (simp add: nat_add_distrib)
next
  fix i
  assume nk: "0 \<le> n" "0 \<le> k" and "i < length (slots start n @ slots (start + n) k)"
  then have i: "i < nat n + nat k" by simp
  show "(slots start n @ slots (start + n) k) ! i = slots start (n + k) ! i"
  proof (cases "i < nat n")
    case True
    with nk i show ?thesis
      by (simp add: nth_append slots_nth nat_add_distrib)
  next
    case False
    with nk i show ?thesis
      by (simp add: nth_append slots_nth nat_add_distrib)
  qed
qed

lemma distinct_slots [simp]: "distinct (slots start n)"
  by (simp add: slots_upto)

lemma sorted_slots [simp]: "sorted (slots start n)"
  by (simp add: slots_upto)

section \<open>The index lists (claims C3 and C4)\<close>

text \<open>
  Claim C3, counterexample.  The claim promises index ranges for all non-negative counts.
  With \<open>Nclimb1 = 0\<close> (and 3 segments in the other two phases) \<open>iclimb1\<close> is empty, and
  the start of \<open>iclimb2\<close>, \<^verbatim>\<open>iclimb1[len(iclimb1)-1] + 1\<close>, raises \<^verbatim>\<open>IndexError\<close>: no
  index range is produced.
\<close>

theorem index_ranges_zero_climb1_counterexample:
  "build_indices 0 3 3 = Inl IndexError"
  by (rule build_indices_zero1)

text \<open>
  Claim C3, amended.  When both climb phases have at least one segment and \<open>Ncruise2\<close>
  is not negative, the index lists are built and are the consecutive ranges
  \<open>[0, Nclimb1)\<close>, \<open>[Nclimb1, Nclimb1 + Nclimb2)\<close> and
  \<open>[Nclimb1 + Nclimb2, Nclimb1 + Nclimb2 + Ncruise2)\<close>: in the order climb-1, climb-2,
  cruise-2 they make up \<open>0, 1, \<dots>, Nclimb1 + Nclimb2 + Ncruise2 - 1\<close> without gap or
  repetition, they are pairwise disjoint, and each has as many slots as its count, so that
  \<open>Ncruise2 = 0\<close> gives an empty cruise-2 range.
\<close>

theorem index_ranges_partition:
  assumes "0 < Nclimb1" "0 < Nclimb2" "0 \<le> Ncruise2"
  shows "\<exists>ix. build_indices Nclimb1 Nclimb2 Ncruise2 = Inr ix
           \<and> iclimb1 ix = [0 .. Nclimb1 - 1]
           \<and> iclimb2 ix = [Nclimb1 .. Nclimb1 + Nclimb2 - 1]
           \<and> icruise2 ix = [Nclimb1 + Nclimb2 .. Nclimb1 + Nclimb2 + Ncruise2 - 1]
           \<and> iclimb1 ix @ iclimb2 ix @ icruise2 ix = [0 .. Nclimb1 + Nclimb2 + Ncruise2 - 1]
           \<and> set (iclimb1 ix) \<inter> set (iclimb2 ix) = {}
           \<and> set (iclimb1 ix) \<inter> set (icruise2 ix) = {}
           \<and> set (iclimb2 ix) \<inter> set (icruise2 ix) = {}
           \<and> int (card (set (iclimb1 ix) \<union> set (iclimb2 ix) \<union> set (icruise2 ix)))
               = Nclimb1 + Nclimb2 + Ncruise2
           \<and> int (length (iclimb1 ix)) = Nclimb1
           \<and> int (length (iclimb2 ix)) = Nclimb2
           \<and> int (length (icruise2 ix)) = Ncruise2"
proof -
  let ?ix = "\<lparr>iclimb1 = slots 0 Nclimb1, iclimb2 = slots Nclimb1 Nclimb2,
              icruise2 = slots (Nclimb1 + Nclimb2) Ncruise2, izbre = slots 0 Ncruise2\<rparr>"
  have b: "build_indices Nclimb1 Nclimb2 Ncruise2 = Inr ?ix"
    using assms by (rule build_indices_ok)
  have cat: "slots 0 Nclimb1 @ slots Nclimb1 Nclimb2 @ slots (Nclimb1 + Nclimb2) Ncruise2
               = slots 0 (Nclimb1 + Nclimb2 + Ncruise2)"
    using assms slots_append [of Nclimb2 Ncruise2 Nclimb1] slots_append [of Nclimb1 "Nclimb2 + Ncruise2" 0]
    by (simp add: add.assoc)
  have un: "set (slots 0 Nclimb1) \<union> set (slots Nclimb1 Nclimb2) \<union> set (slots (Nclimb1 + Nclimb2) Ncruise2)
              = {0 ..< Nclimb1 + Nclimb2 + Ncruise2}"
    using assms by (auto simp: set_slots)
  have "iclimb1 ?ix = [0 .. Nclimb1 - 1]"
    by (simp add: slots_upto)
  moreover have "iclimb2 ?ix = [Nclimb1 .. Nclimb1 + Nclimb2 - 1]"
    by (simp add: slots_upto)
  moreover have "icruise2 ?ix = [Nclimb1 + Nclimb2 .. Nclimb1 + Nclimb2 + Ncruise2 - 1]"
    by (simp add: slots_upto)
  moreover have "iclimb1 ?ix @ iclimb2 ?ix @ icruise2 ?ix = [0 .. Nclimb1 + Nclimb2 + Ncruise2 - 1]"
    using cat by (simp add: slots_upto)
  moreover have "set (iclimb1 ?ix) \<inter> set (iclimb2 ?ix) = {}"
    "set (iclimb1 ?ix) \<inter> set (icruise2 ?ix) = {}"
    "set (iclimb2 ?ix) \<inter> set (icruise2 ?ix) = {}"
    using assms by (auto simp: set_slots)
  moreover have "int (card (set (iclimb1 ?ix) \<union> set (iclimb2 ?ix) \<union> set (icruise2 ?ix)))
                   = Nclimb1 + Nclimb2 + Ncruise2"
    using assms un by simp
  moreover have "int (length (iclimb1 ?ix)) = Nclimb1" "int (length (iclimb2 ?ix)) = Nclimb2"
    "int (length (icruise2 ?ix)) = Ncruise2"
    using assms by simp_all
  ultimately show ?thesis
    using b by blast
qed

theorem index_ranges_partition_witness:
  "\<exists>ix. build_indices 3 3 0 = Inr ix
      \<and> iclimb1 ix = [0, 1, 2] \<and> iclimb2 ix = [3, 4, 5] \<and> icruise2 ix = []
      \<and> iclimb1 ix @ iclimb2 ix @ icruise2 ix = [0, 1, 2, 3, 4, 5]
      \<and> int (card (set (iclimb1 ix) \<union> set (iclimb2 ix) \<union> set (icruise2 ix))) = 6"
proof -
  have u: "[0 .. 2] = [0, 1, 2 :: int]" "[3 .. 5] = [3, 4, 5 :: int]" "[6 .. 5] = ([] :: int list)"
    "[0 .. 5] = [0, 1, 2, 3, 4, 5 :: int]"
    by (simp_all add: upto_rec1)
  have h: "(0::int) < 3" "(0::int) \<le> 0" by simp_all
  from index_ranges_partition [OF h(1) h(1) h(2)] u show ?thesis
    by auto
qed

text \<open>
  Claim C4.  If one of the three segment counts is negative, building the index lists
  raises (\<^verbatim>\<open>ValueError\<close> from \<^verbatim>\<open>np.linspace\<close>, or \<^verbatim>\<open>IndexError\<close> when an earlier list is
  already empty), so the construction of the linked model raises the same error and the
  script raises it whatever the solver is: no solve is attempted.
\<close>

theorem negative_count_fails:
  assumes "Nclimb1 < 0 \<or> Nclimb2 < 0 \<or> Ncruise2 < 0"
  shows "\<exists>e. (e = ValueError \<or> e = IndexError)
           \<and> build_indices Nclimb1 Nclimb2 Ncruise2 = Inl e
           \<and> CommercialAircraft Nclimb1 Nclimb2 Ncruise2 = Inl e
           \<and> (\<forall>localsolve :: model \<Rightarrow> error + 'sol.
                 main_script localsolve Nclimb1 Nclimb2 Ncruise2 = Inl e)"
proof -
  have "\<not> (0 < Nclimb1 \<and> 0 < Nclimb2 \<and> 0 \<le> Ncruise2)"
    using assms by linarith
  then obtain e where e: "e = ValueError \<or> e = IndexError"
      "build_indices Nclimb1 Nclimb2 Ncruise2 = Inl e"
    using build_indices_fails by blast
  then have "CommercialAircraft Nclimb1 Nclimb2 Ncruise2 = Inl e"
    by (simp add: CommercialAircraft_def)
  then have "\<forall>localsolve :: model \<Rightarrow> error + 'sol. main_script localsolve Nclimb1 Nclimb2 Ncruise2 = Inl e"
    by (simp add: main_script_def)
  with e \<open>CommercialAircraft Nclimb1 Nclimb2 Ncruise2 = Inl e\<close> show ?thesis
    by blast
qed

theorem negative_count_fails_witness:
  "build_indices 3 3 (- 1) = Inl ValueError
     \<and> CommercialAircraft 3 3 (- 1) = Inl ValueError
     \<and> (\<forall>localsolve :: model \<Rightarrow> error + unit. main_script localsolve 3 3 (- 1) = Inl ValueError)"
proof -
  have h: "(3::int) < 0 \<or> (3::int) < 0 \<or> (- 1 :: int) < 0" by simp
  have v: "build_indices 3 3 (- 1) = Inl ValueError"
    by (simp add: build_indices_neg3)
  from negative_count_fails [OF h, where 'sol = unit] v show ?thesis
    by auto
qed

subsection \<open>Structure of the constraint lists\<close>


lemma set_py_range [simp]: "set (py_range lo hi) = {lo ..< hi}"
  by (auto simp: py_range_def)

lemma zip_slots: "zip (slots s n) (slots 0 n) = map (\<lambda>k. (s + k, k)) (slots 0 n)"
  by (simp add: slots_def zip_map_map comp_def zip_same_conv_map)

lemma py_min_slots: "0 < n \<Longrightarrow> py_min (slots 0 n) = Inr 0"
proof -
  assume n: "0 < n"
  then have ne: "slots 0 n \<noteq> []" by (simp add: slots_def)
  have "Min {0 ..< n} = 0"
    using n by (intro Min_eqI) auto
  with ne show ?thesis by (simp add: py_min_def set_slots)
qed

lemma py_max_slots: "0 < n \<Longrightarrow> py_max (slots 0 n) = Inr (n - 1)"
proof -
  assume n: "0 < n"
  then have ne: "slots 0 n \<noteq> []" by (simp add: slots_def)
  have "Max {0 ..< n} = n - 1"
    using n by (intro Max_eqI) auto
  with ne show ?thesis by (simp add: py_max_def set_slots)
qed

lemma Cruise2_empty: "izbre ix = [] \<Longrightarrow> Cruise2 Nclimb1 Nclimb2 Ncruise2 ix = Inl ValueError"
  by (simp add: Cruise2_def py_min_def Let_def)

lemma CommercialAircraft_InrD:
  assumes "CommercialAircraft Nclimb1 Nclimb2 Ncruise2 = Inr m"
  shows "0 < Nclimb1 \<and> 0 < Nclimb2 \<and> 0 < Ncruise2"
    and "\<exists>ix c2. build_indices Nclimb1 Nclimb2 Ncruise2 = Inr ix
           \<and> Cruise2 Nclimb1 Nclimb2 Ncruise2 ix = Inr c2
           \<and> constraints m = constraints (CommericalMissionConstraints Nclimb1 Nclimb2 Ncruise2 ix)
               @ constraints (Climb1 Nclimb1 Nclimb2 Ncruise2 ix)
               @ constraints (Climb2 Nclimb1 Nclimb2 Ncruise2 ix)
               @ constraints c2"
proof -
  obtain ix where ix: "build_indices Nclimb1 Nclimb2 Ncruise2 = Inr ix"
    using assms by (cases "build_indices Nclimb1 Nclimb2 Ncruise2") (simp_all add: CommercialAircraft_def)
  obtain c2 where c2: "Cruise2 Nclimb1 Nclimb2 Ncruise2 ix = Inr c2"
    using assms ix by (cases "Cruise2 Nclimb1 Nclimb2 Ncruise2 ix") (simp_all add: CommercialAircraft_def Let_def)
  note d = build_indices_InrD [OF ix]
  have "Ncruise2 \<noteq> 0"
  proof
    assume "Ncruise2 = 0"
    then have "izbre ix = []" using d(4) by simp
    then show False using c2 by (simp add: Cruise2_empty)
  qed
  with d show "0 < Nclimb1 \<and> 0 < Nclimb2 \<and> 0 < Ncruise2" by simp
  have "m = Model (cost (CommericalMissionConstraints Nclimb1 Nclimb2 Ncruise2 ix))
              (concat (map constraints [CommericalMissionConstraints Nclimb1 Nclimb2 Ncruise2 ix,
                 Climb1 Nclimb1 Nclimb2 Ncruise2 ix, Climb2 Nclimb1 Nclimb2 Ncruise2 ix, c2]))"
    using assms ix c2 by (simp add: CommercialAircraft_def Let_def)
  then have "constraints m = constraints (CommericalMissionConstraints Nclimb1 Nclimb2 Ncruise2 ix)
               @ constraints (Climb1 Nclimb1 Nclimb2 Ncruise2 ix)
               @ constraints (Climb2 Nclimb1 Nclimb2 Ncruise2 ix)
               @ constraints c2"
    by (simp add: Model_def)
  with ix c2 show "\<exists>ix c2. build_indices Nclimb1 Nclimb2 Ncruise2 = Inr ix
           \<and> Cruise2 Nclimb1 Nclimb2 Ncruise2 ix = Inr c2
           \<and> constraints m = constraints (CommericalMissionConstraints Nclimb1 Nclimb2 Ncruise2 ix)
               @ constraints (Climb1 Nclimb1 Nclimb2 Ncruise2 ix)
               @ constraints (Climb2 Nclimb1 Nclimb2 Ncruise2 ix)
               @ constraints c2"
    by blast
qed

lemma satisfies_append: "satisfies v (xs @ ys) \<longleftrightarrow> satisfies v xs \<and> satisfies v ys"
  by (auto simp: satisfies_def)

lemma satisfies_C: "satisfies v cs \<Longrightarrow> C c \<in> set cs \<Longrightarrow> holds v c"
  by (auto simp: satisfies_def list_all_iff)

lemma satisfies_TCS: "satisfies v cs \<Longrightarrow> TCS ts \<in> set cs \<Longrightarrow> c \<in> set ts \<Longrightarrow> holds v c"
  by (fastforce simp: satisfies_def list_all_iff)

lemma satisfies_pos: "satisfies v cs \<Longrightarrow> 0 < v k"
  by (cases k) (simp add: satisfies_def)

lemma constraints_Model [simp]: "constraints (Model co cs) = cs"
  by (simp add: Model_def)

lemma Cruise2_built:
  assumes "0 < Ncruise2" "izbre ix = slots 0 Ncruise2" "icruise2 ix = slots s Ncruise2"
  shows "\<exists>c2. Cruise2 Nclimb1 Nclimb2 Ncruise2 ix = Inr c2
     \<and> constraints c2 =
         map (\<lambda>i. C (Eq (El hft i) (Num (35000 * units ''ft'')))) (slots s Ncruise2)
         @ [TCS (map (\<lambda>k. Ge (El W_fuel (s + k) / El W_end (s + k)) (te_exp_minus1 (El z_bre k) 3)) (slots 0 Ncruise2))]
         @ [TCS (map (\<lambda>k. Le (El RngCruise k)
                                   (El z_bre k * El LD (s + k) * El V_q (s + k) / (El TSFC (s + k) * Sc g_q))) (slots 0 Ncruise2))]
         @ map (\<lambda>k. C (Eq (El thours (s + k) * El V_q (s + k)) (El RngCruise k))) (slots 0 Ncruise2)
         @ map (\<lambda>i. TCS [Ge (El RngCruise i)
                             (Num (of_int (i + 1)) * Sc ReqRngCruise
                                / Num (of_int (Nseg Nclimb1 Nclimb2 Ncruise2)))])
               (py_range 0 Ncruise2)
         @ map (\<lambda>i. C (Eq (El TSFC i) (Num (1.4 * units ''lb/lbf/hr'')))) (slots s Ncruise2)
         @ map (\<lambda>i. C (Eq (El LD i) (Num 10))) (slots s Ncruise2)
         @ map (\<lambda>i. C (Eq (El V_q i) (Num (420 * units ''kts'')))) (slots s Ncruise2)
         @ map (\<lambda>i. C (Eq (El TSFC i) (Sc c1))) (iclimb2 ix)
         @ map (\<lambda>i. C (Eq (El rho i) (Num (1.225 * units ''kg/m^3'')))) (iclimb2 ix)
         @ map (\<lambda>i. C (Eq (El TSFC i) (Sc c1))) (iclimb1 ix)
         @ map (\<lambda>i. C (Eq (El rho i) (Num (1.225 * units ''kg/m^3'')))) (iclimb1 ix)
         @ [C (Eq (Sc W_e) (Num (40000 * units ''N''))),
            C (Eq (Sc W_payload) (Num (400000 * units ''N'')))]
         @ map (\<lambda>i. C (Eq (El T_q i) (Num (273 * units ''K''))))
               (py_range 0 (Nseg Nclimb1 Nclimb2 Ncruise2))"
  using assms
  by (simp add: Cruise2_def Let_def py_min_slots py_max_slots zip_slots comp_def)


lemma eval_plus [simp]: "eval v (x + y) = eval v x + eval v y"
  by (simp add: plus_expr_def)

lemma eval_times [simp]: "eval v (x * y) = eval v x * eval v y"
  by (simp add: times_expr_def)

lemma eval_divide [simp]: "eval v (x / y) = eval v x / eval v y"
  by (simp add: divide_expr_def)

lemma vars_plus [simp]: "vars_expr (x + y) = vars_expr x @ vars_expr y"
  by (simp add: plus_expr_def)

lemma vars_times [simp]: "vars_expr (x * y) = vars_expr x @ vars_expr y"
  by (simp add: times_expr_def)

lemma vars_divide [simp]: "vars_expr (x / y) = vars_expr x @ vars_expr y"
  by (simp add: divide_expr_def)

lemma te_exp_minus1_3:
  "te_exp_minus1 z 3 = Num 0 + Pow z 1 / Num 1 + Pow z 2 / Num 2 + Pow z 3 / Num 6"
  by (simp add: te_exp_minus1_def upt_rec numeral_eq_Suc)

lemma eval_te_exp_minus1_3:
  assumes "0 < eval v z"
  shows "eval v (te_exp_minus1 z 3) = eval v z + (eval v z)\<^sup>2 / 2 + (eval v z) ^ 3 / 6"
  using assms by (simp add: te_exp_minus1_3)

lemma eval_foldl_plus: "eval v (foldl (+) e xs) = eval v e + sum_list (map (eval v) xs)"
  by (induction xs arbitrary: e) (simp_all add: add.assoc)

lemma eval_py_sum: "eval v (py_sum xs) = sum_list (map (eval v) xs)"
  by (simp add: py_sum_def eval_foldl_plus)



subsection \<open>Variables that occur in a constraint list\<close>


lemma set_varkeys_Nil [simp]: "set (varkeys []) = {}"
  by (simp add: varkeys_def)

lemma set_varkeys_append [simp]: "set (varkeys (xs @ ys)) = set (varkeys xs) \<union> set (varkeys ys)"
  by (simp add: varkeys_def)

lemma set_varkeys_C [simp]: "set (varkeys (C c # cs)) = set (vars_constr c) \<union> set (varkeys cs)"
  by (simp add: varkeys_def)

lemma set_varkeys_TCS [simp]:
  "set (varkeys (TCS ts # cs)) = (\<Union>c\<in>set ts. set (vars_constr c)) \<union> set (varkeys cs)"
  by (simp add: varkeys_def)

lemma set_varkeys_map [simp]: "set (varkeys (map f xs)) = (\<Union>i\<in>set xs. set (varkeys [f i]))"
  by (induction xs) (simp_all add: varkeys_def)

lemma set_vars_foldl_plus: "set (vars_expr (foldl (+) e xs)) = set (vars_expr e) \<union> (\<Union>x\<in>set xs. set (vars_expr x))"
  by (induction xs arbitrary: e) auto

lemma set_vars_py_sum [simp]: "set (vars_expr (py_sum xs)) = (\<Union>x\<in>set xs. set (vars_expr x))"
  by (simp add: py_sum_def set_vars_foldl_plus)

lemma varkeys_memI: "C c \<in> set cs \<Longrightarrow> k \<in> set (vars_constr c) \<Longrightarrow> k \<in> set (varkeys cs)"
  by (force simp: varkeys_def)


subsection \<open>The sample solution meets every constraint\<close>


lemma units_simps:
  "units ''ft'' = 0.3048" "units ''feet'' = 0.3048" "units ''miles'' = 1609.344"
  "units ''kts'' = 1852 / 3600" "units ''knots'' = 1852 / 3600"
  "units ''lb/lbf/hr'' = 1 / (9.80665 * 3600)"
  "units ''N'' = 1" "units ''K'' = 1" "units ''kg/m^3'' = 1" "units ''m/s^2'' = 1"
  "units ''-'' = 1" "units ''J/kg/K'' = 1" "units ''m^2'' = 1"
  by (simp_all add: units_def)

lemma sample_positive: "0 < sample_solution k"
proof (cases k)
  case (Pair q o_i)
  show ?thesis
  proof (cases o_i)
    case None
    with Pair show ?thesis
      by (simp add: sample_solution_def sample_scalar_def declared_value_def units_simps)
  next
    case (Some i)
    have "0 < sample_elem q i"
      by (simp add: sample_elem_def sample_altitude_def sample_range_def units_simps)
    with Pair Some show ?thesis
      by (simp add: sample_solution_def)
  qed
qed

lemma slots3: "slots s 3 = [s, s + 1, s + 2]"
  by (simp add: slots_def upt_rec numeral_eq_Suc)

lemma ranges9:
  "py_range 0 9 = [0, 1, 2, 3, 4, 5, 6, 7, 8]"
  "py_range 1 9 = [1, 2, 3, 4, 5, 6, 7, 8]"
  "py_range 0 6 = [0, 1, 2, 3, 4, 5]"
  "py_range 0 3 = [0, 1, 2]"
  by (simp_all add: py_range_def upto_rec1)

lemma Nseg333: "Nseg 3 3 3 = 9" "Nclimb 3 3 = 6"
  by (simp_all add: Nseg_def Nclimb_def Ncruise_def Nres_def Ntakeoff_def Ntrans_def Ncruise1_def
      Ncruiseclimb_def Ndecent_def Nlanding_def Nresclimb_def Nresdecent_def Nreslanding_def Nreshold_def)

lemmas sample_defs = sample_solution_def sample_scalar_def sample_elem_def sample_altitude_def
  sample_range_def declared_value_def units_simps

lemmas expr_ops = plus_expr_def times_expr_def divide_expr_def

lemma sample_Climb1:
  "list_all (holds_item sample_solution) (constraints (Climb1 3 3 3 ix333))"
  by (simp add: Climb1_def ix333_def slots3 ranges9 Nseg333 expr_ops sample_defs Model_def power_divide)

lemma sample_Climb2:
  "list_all (holds_item sample_solution) (constraints (Climb2 3 3 3 ix333))"
  by (simp add: Climb2_def ix333_def slots3 ranges9 Nseg333 expr_ops sample_defs Model_def power_divide)

lemma sample_Mission:
  "list_all (holds_item sample_solution) (constraints (CommericalMissionConstraints 3 3 3 ix333))"
  by (simp add: CommericalMissionConstraints_def ix333_def slots3 ranges9 Nseg333 expr_ops sample_defs
      Model_def py_sum_def Ntakeoff_def Ncruise1_def)

lemma sample_Cruise2:
  "\<exists>c2. Cruise2 3 3 3 ix333 = Inr c2 \<and> list_all (holds_item sample_solution) (constraints c2)"
  by (simp add: Cruise2_def ix333_def slots3 ranges9 Nseg333 expr_ops sample_defs Model_def
      py_min_def py_max_def te_exp_minus1_def upt_rec numeral_eq_Suc power_divide)



subsection \<open>The linked model and its parts\<close>


lemma build333: "build_indices 3 3 3 = Inr ix333"
  by (simp add: build_indices_ok ix333_def)

lemma sample_linked:
  "\<exists>m. CommercialAircraft 3 3 3 = Inr m \<and> satisfies sample_solution (constraints m)"
proof -
  obtain c2 where c2: "Cruise2 3 3 3 ix333 = Inr c2"
      "list_all (holds_item sample_solution) (constraints c2)"
    using sample_Cruise2 by blast
  let ?m = "Model (cost (CommericalMissionConstraints 3 3 3 ix333))
              (concat (map constraints [CommericalMissionConstraints 3 3 3 ix333,
                 Climb1 3 3 3 ix333, Climb2 3 3 3 ix333, c2]))"
  have "CommercialAircraft 3 3 3 = Inr ?m"
    by (simp add: CommercialAircraft_def build333 c2 Let_def)
  moreover have "satisfies sample_solution (constraints ?m)"
    using sample_Mission sample_Climb1 sample_Climb2 c2(2)
    by (simp add: satisfies_def sample_positive)
  ultimately show ?thesis by blast
qed

lemma feasible_satisfies: "feasible m v \<Longrightarrow> satisfies v (constraints m)"
  by (simp add: feasible_def)

lemma linked_parts:
  assumes "CommercialAircraft Nclimb1 Nclimb2 Ncruise2 = Inr m"
  obtains ix c2 where "build_indices Nclimb1 Nclimb2 Ncruise2 = Inr ix"
    "ix = \<lparr>iclimb1 = slots 0 Nclimb1, iclimb2 = slots Nclimb1 Nclimb2,
           icruise2 = slots (Nclimb1 + Nclimb2) Ncruise2, izbre = slots 0 Ncruise2\<rparr>"
    "Cruise2 Nclimb1 Nclimb2 Ncruise2 ix = Inr c2"
    "constraints m = constraints (CommericalMissionConstraints Nclimb1 Nclimb2 Ncruise2 ix)
               @ constraints (Climb1 Nclimb1 Nclimb2 Ncruise2 ix)
               @ constraints (Climb2 Nclimb1 Nclimb2 Ncruise2 ix)
               @ constraints c2"
    "0 < Nclimb1" "0 < Nclimb2" "0 < Ncruise2"
  using CommercialAircraft_InrD [OF assms] build_indices_InrD(4) by metis

lemma Cruise2_parts:
  assumes "build_indices Nclimb1 Nclimb2 Ncruise2 = Inr ix" "Cruise2 Nclimb1 Nclimb2 Ncruise2 ix = Inr c2"
  shows "0 < Ncruise2"
    and "constraints c2 =
         map (\<lambda>i. C (Eq (El hft i) (Num (35000 * units ''ft'')))) (slots (Nclimb1 + Nclimb2) Ncruise2)
         @ [TCS (map (\<lambda>k. Ge (El W_fuel (Nclimb1 + Nclimb2 + k) / El W_end (Nclimb1 + Nclimb2 + k)) (te_exp_minus1 (El z_bre k) 3)) (slots 0 Ncruise2))]
         @ [TCS (map (\<lambda>k. Le (El RngCruise k)
                                   (El z_bre k * El LD (Nclimb1 + Nclimb2 + k) * El V_q (Nclimb1 + Nclimb2 + k) / (El TSFC (Nclimb1 + Nclimb2 + k) * Sc g_q))) (slots 0 Ncruise2))]
         @ map (\<lambda>k. C (Eq (El thours (Nclimb1 + Nclimb2 + k) * El V_q (Nclimb1 + Nclimb2 + k)) (El RngCruise k))) (slots 0 Ncruise2)
         @ map (\<lambda>i. TCS [Ge (El RngCruise i)
                             (Num (of_int (i + 1)) * Sc ReqRngCruise
                                / Num (of_int (Nseg Nclimb1 Nclimb2 Ncruise2)))])
               (py_range 0 Ncruise2)
         @ map (\<lambda>i. C (Eq (El TSFC i) (Num (1.4 * units ''lb/lbf/hr'')))) (slots (Nclimb1 + Nclimb2) Ncruise2)
         @ map (\<lambda>i. C (Eq (El LD i) (Num 10))) (slots (Nclimb1 + Nclimb2) Ncruise2)
         @ map (\<lambda>i. C (Eq (El V_q i) (Num (420 * units ''kts'')))) (slots (Nclimb1 + Nclimb2) Ncruise2)
         @ map (\<lambda>i. C (Eq (El TSFC i) (Sc c1))) (slots Nclimb1 Nclimb2)
         @ map (\<lambda>i. C (Eq (El rho i) (Num (1.225 * units ''kg/m^3'')))) (slots Nclimb1 Nclimb2)
         @ map (\<lambda>i. C (Eq (El TSFC i) (Sc c1))) (slots 0 Nclimb1)
         @ map (\<lambda>i. C (Eq (El rho i) (Num (1.225 * units ''kg/m^3'')))) (slots 0 Nclimb1)
         @ [C (Eq (Sc W_e) (Num (40000 * units ''N''))),
            C (Eq (Sc W_payload) (Num (400000 * units ''N'')))]
         @ map (\<lambda>i. C (Eq (El T_q i) (Num (273 * units ''K''))))
               (py_range 0 (Nseg Nclimb1 Nclimb2 Ncruise2))"
proof -
  note d = build_indices_InrD [OF assms(1)]
  have "Ncruise2 \<noteq> 0"
  proof
    assume "Ncruise2 = 0"
    then have "izbre ix = []" using d(4) by simp
    then show False using assms(2) by (simp add: Cruise2_empty)
  qed
  with d(3) show pos: "0 < Ncruise2" by simp
  have iz: "izbre ix = slots 0 Ncruise2" and ic: "icruise2 ix = slots (Nclimb1 + Nclimb2) Ncruise2"
    and i1: "iclimb1 ix = slots 0 Nclimb1" and i2: "iclimb2 ix = slots Nclimb1 Nclimb2"
    using d(4) by simp_all
  from Cruise2_built [OF pos iz ic, of Nclimb1 Nclimb2] assms(2)
  show "constraints c2 = 
         map (\<lambda>i. C (Eq (El hft i) (Num (35000 * units ''ft'')))) (slots (Nclimb1 + Nclimb2) Ncruise2)
         @ [TCS (map (\<lambda>k. Ge (El W_fuel (Nclimb1 + Nclimb2 + k) / El W_end (Nclimb1 + Nclimb2 + k)) (te_exp_minus1 (El z_bre k) 3)) (slots 0 Ncruise2))]
         @ [TCS (map (\<lambda>k. Le (El RngCruise k)
                                   (El z_bre k * El LD (Nclimb1 + Nclimb2 + k) * El V_q (Nclimb1 + Nclimb2 + k) / (El TSFC (Nclimb1 + Nclimb2 + k) * Sc g_q))) (slots 0 Ncruise2))]
         @ map (\<lambda>k. C (Eq (El thours (Nclimb1 + Nclimb2 + k) * El V_q (Nclimb1 + Nclimb2 + k)) (El RngCruise k))) (slots 0 Ncruise2)
         @ map (\<lambda>i. TCS [Ge (El RngCruise i)
                             (Num (of_int (i + 1)) * Sc ReqRngCruise
                                / Num (of_int (Nseg Nclimb1 Nclimb2 Ncruise2)))])
               (py_range 0 Ncruise2)
         @ map (\<lambda>i. C (Eq (El TSFC i) (Num (1.4 * units ''lb/lbf/hr'')))) (slots (Nclimb1 + Nclimb2) Ncruise2)
         @ map (\<lambda>i. C (Eq (El LD i) (Num 10))) (slots (Nclimb1 + Nclimb2) Ncruise2)
         @ map (\<lambda>i. C (Eq (El V_q i) (Num (420 * units ''kts'')))) (slots (Nclimb1 + Nclimb2) Ncruise2)
         @ map (\<lambda>i. C (Eq (El TSFC i) (Sc c1))) (slots Nclimb1 Nclimb2)
         @ map (\<lambda>i. C (Eq (El rho i) (Num (1.225 * units ''kg/m^3'')))) (slots Nclimb1 Nclimb2)
         @ map (\<lambda>i. C (Eq (El TSFC i) (Sc c1))) (slots 0 Nclimb1)
         @ map (\<lambda>i. C (Eq (El rho i) (Num (1.225 * units ''kg/m^3'')))) (slots 0 Nclimb1)
         @ [C (Eq (Sc W_e) (Num (40000 * units ''N''))),
            C (Eq (Sc W_payload) (Num (400000 * units ''N'')))]
         @ map (\<lambda>i. C (Eq (El T_q i) (Num (273 * units ''K''))))
               (py_range 0 (Nseg Nclimb1 Nclimb2 Ncruise2))"
    by (simp add: i1 i2)
qed

text \<open>The facts of Cruise2 the claims use.\<close>

lemma Cruise2_staged_mem:
  assumes "build_indices Nclimb1 Nclimb2 Ncruise2 = Inr ix" "Cruise2 Nclimb1 Nclimb2 Ncruise2 ix = Inr c2"
    "0 \<le> k" "k < Ncruise2"
  shows "TCS [Ge (El RngCruise k) (Num (of_int (k + 1)) * Sc ReqRngCruise
                    / Num (of_int (Nseg Nclimb1 Nclimb2 Ncruise2)))] \<in> set (constraints c2)"
  using assms(3,4) by (simp add: Cruise2_parts(2) [OF assms(1,2)])

lemma Cruise2_altitude_mem:
  assumes "build_indices Nclimb1 Nclimb2 Ncruise2 = Inr ix" "Cruise2 Nclimb1 Nclimb2 Ncruise2 ix = Inr c2"
    "Nclimb1 + Nclimb2 \<le> i" "i < Nclimb1 + Nclimb2 + Ncruise2"
  shows "C (Eq (El hft i) (Num (35000 * units ''ft''))) \<in> set (constraints c2)"
  using assms(3,4) by (simp add: Cruise2_parts(2) [OF assms(1,2)] set_slots)

lemma Cruise2_breguet_mem:
  assumes "build_indices Nclimb1 Nclimb2 Ncruise2 = Inr ix" "Cruise2 Nclimb1 Nclimb2 Ncruise2 ix = Inr c2"
    "0 \<le> k" "k < Ncruise2"
  shows "\<exists>ts. TCS ts \<in> set (constraints c2)
           \<and> Ge (El W_fuel (Nclimb1 + Nclimb2 + k) / El W_end (Nclimb1 + Nclimb2 + k))
                 (te_exp_minus1 (El z_bre k) 3) \<in> set ts"
    and "\<exists>ts. TCS ts \<in> set (constraints c2)
           \<and> Le (El RngCruise k)
                 (El z_bre k * El LD (Nclimb1 + Nclimb2 + k) * El V_q (Nclimb1 + Nclimb2 + k)
                    / (El TSFC (Nclimb1 + Nclimb2 + k) * Sc g_q)) \<in> set ts"
proof -
  let ?A = "map (\<lambda>k. Ge (El W_fuel (Nclimb1 + Nclimb2 + k) / El W_end (Nclimb1 + Nclimb2 + k)) (te_exp_minus1 (El z_bre k) 3)) (slots 0 Ncruise2)"
  let ?B = "map (\<lambda>k. Le (El RngCruise k)
                                   (El z_bre k * El LD (Nclimb1 + Nclimb2 + k) * El V_q (Nclimb1 + Nclimb2 + k) / (El TSFC (Nclimb1 + Nclimb2 + k) * Sc g_q))) (slots 0 Ncruise2)"
  have k: "k \<in> set (slots 0 Ncruise2)"
    using assms(3,4) by (simp add: set_slots)
  have "TCS ?A \<in> set (constraints c2)" "TCS ?B \<in> set (constraints c2)"
    by (simp_all add: Cruise2_parts(2) [OF assms(1,2)])
  moreover have "Ge (El W_fuel (Nclimb1 + Nclimb2 + k) / El W_end (Nclimb1 + Nclimb2 + k))
                 (te_exp_minus1 (El z_bre k) 3) \<in> set ?A"
    unfolding set_map by (rule image_eqI [where x = k]) (simp_all add: k)
  moreover have "Le (El RngCruise k)
                 (El z_bre k * El LD (Nclimb1 + Nclimb2 + k) * El V_q (Nclimb1 + Nclimb2 + k)
                    / (El TSFC (Nclimb1 + Nclimb2 + k) * Sc g_q)) \<in> set ?B"
    unfolding set_map by (rule image_eqI [where x = k]) (simp_all add: k)
  ultimately show "\<exists>ts. TCS ts \<in> set (constraints c2)
           \<and> Ge (El W_fuel (Nclimb1 + Nclimb2 + k) / El W_end (Nclimb1 + Nclimb2 + k))
                 (te_exp_minus1 (El z_bre k) 3) \<in> set ts"
    and "\<exists>ts. TCS ts \<in> set (constraints c2)
           \<and> Le (El RngCruise k)
                 (El z_bre k * El LD (Nclimb1 + Nclimb2 + k) * El V_q (Nclimb1 + Nclimb2 + k)
                    / (El TSFC (Nclimb1 + Nclimb2 + k) * Sc g_q)) \<in> set ts"
    by blast+
qed



lemma sample_Cruise2_satisfies:
  "\<exists>c2. Cruise2 3 3 3 ix333 = Inr c2 \<and> satisfies sample_solution (constraints c2)"
  using sample_Cruise2 by (auto simp: satisfies_def sample_positive)


subsection \<open>The declared constants admit no solution\<close>


lemma linked_needs_thrust:
  assumes "CommercialAircraft Nclimb1 Nclimb2 Ncruise2 = Inr m"
  shows "(thrust, None) \<in> set (varkeys (constraints m))" "(S_q, None) \<in> set (varkeys (constraints m))"
    "(K_q, None) \<in> set (varkeys (constraints m))" "(climbspeed, None) \<in> set (varkeys (constraints m))"
proof -
  from assms obtain ix c2 where p: "build_indices Nclimb1 Nclimb2 Ncruise2 = Inr ix"
      "ix = \<lparr>iclimb1 = slots 0 Nclimb1, iclimb2 = slots Nclimb1 Nclimb2,
           icruise2 = slots (Nclimb1 + Nclimb2) Ncruise2, izbre = slots 0 Ncruise2\<rparr>"
      "Cruise2 Nclimb1 Nclimb2 Ncruise2 ix = Inr c2"
      "constraints m = constraints (CommericalMissionConstraints Nclimb1 Nclimb2 Ncruise2 ix)
               @ constraints (Climb1 Nclimb1 Nclimb2 Ncruise2 ix)
               @ constraints (Climb2 Nclimb1 Nclimb2 Ncruise2 ix)
               @ constraints c2"
      "0 < Nclimb1" "0 < Nclimb2" "0 < Ncruise2"
    by (rule linked_parts)
  have 0: "0 \<in> set (iclimb1 ix)"
    using p(5) by (simp add: p(2) set_slots)
  have a: "C (Le (El V_q 0) (Sc climbspeed)) \<in> set (constraints m)"
    using 0 by (simp add: p(4) Climb1_def Let_def)
  show "(climbspeed, None) \<in> set (varkeys (constraints m))"
    by (rule varkeys_memI [OF a]) simp
  have b: "C (Eq (El W_fuel 0) (Sc g_q * El TSFC 0 * El thours 0 * Sc thrust)) \<in> set (constraints m)"
    using 0 by (simp add: p(4) Climb1_def Let_def)
  show "(thrust, None) \<in> set (varkeys (constraints m))"
    by (rule varkeys_memI [OF b]) simp
  have "(S_q, None) \<in> set (varkeys (constraints (Climb1 Nclimb1 Nclimb2 Ncruise2 ix)))"
    "(K_q, None) \<in> set (varkeys (constraints (Climb1 Nclimb1 Nclimb2 Ncruise2 ix)))"
    using 0 by (auto simp: Climb1_def Let_def intro!: bexI [of _ 0])
  then show "(S_q, None) \<in> set (varkeys (constraints m))" "(K_q, None) \<in> set (varkeys (constraints m))"
    by (simp_all add: p(4))
qed

lemma power_balance_bound:
  fixes W V :: real
  assumes "440000 < W" "0 < V" "V \<le> 250 * (1852 / 3600)"
  shows "\<not> W / 124.58 * 2 * 0.9 / 1.225 / V < V * 87000 / W"
proof
  assume "W / 124.58 * 2 * 0.9 / 1.225 / V < V * 87000 / W"
  then have "W * W * (2 * 0.9) < V * V * (87000 * (124.58 * 1.225))"
    using assms(1,2) by (simp add: field_simps)
  moreover have "V * V \<le> (250 * (1852 / 3600)) * (250 * (1852 / 3600))"
    using assms(2,3) by (intro mult_mono) simp_all
  moreover have "440000 * 440000 < W * W"
    using assms(1) by (intro mult_strict_mono) simp_all
  ultimately show False by simp
qed


lemma linked_substitutions:
  assumes "CommercialAircraft Nclimb1 Nclimb2 Ncruise2 = Inr m"
  shows "substitutions m = declared_substitutions (constraints m)"
proof -
  have "\<exists>co cs. m = Model co cs"
    using assms
    by (auto simp: CommercialAircraft_def bind_err_def Let_def split: sum.splits)
  then show ?thesis by (auto simp: Model_def)
qed

text \<open>
  With the constants as the module declares them, the linked model has no feasible
  solution.  The first climb segment starts at the total weight, which exceeds the
  440 kN of empty weight and payload; at no more than 250 kts, the induced-drag term
  \<open>W/S * 2 * K / rho / V\<close> of the rate-of-climb balance alone exceeds the available
  \<open>V * thrust / W\<close>.  This is why the properties of solutions below are stated for the
  valuations that meet the constraints, whatever values the substituted constants take.
\<close>

lemma declared_constants_infeasible:
  assumes "CommercialAircraft Nclimb1 Nclimb2 Ncruise2 = Inr m"
  shows "\<not> feasible m v"
proof
  assume f: "feasible m v"
  then have sat: "satisfies v (constraints m)"
    by (rule feasible_satisfies)
  from assms obtain ix c2 where p: "build_indices Nclimb1 Nclimb2 Ncruise2 = Inr ix"
      "ix = \<lparr>iclimb1 = slots 0 Nclimb1, iclimb2 = slots Nclimb1 Nclimb2,
           icruise2 = slots (Nclimb1 + Nclimb2) Ncruise2, izbre = slots 0 Ncruise2\<rparr>"
      "Cruise2 Nclimb1 Nclimb2 Ncruise2 ix = Inr c2"
      "constraints m = constraints (CommericalMissionConstraints Nclimb1 Nclimb2 Ncruise2 ix)
               @ constraints (Climb1 Nclimb1 Nclimb2 Ncruise2 ix)
               @ constraints (Climb2 Nclimb1 Nclimb2 Ncruise2 ix)
               @ constraints c2"
      "0 < Nclimb1" "0 < Nclimb2" "0 < Ncruise2"
    by (rule linked_parts)
  have 0: "0 \<in> set (iclimb1 ix)" "0 \<in> set (slots 0 Nclimb1)"
    using p(5) by (simp_all add: p(2) set_slots)
  have sub: "v (q, None) = c" if "(q, None) \<in> set (varkeys (constraints m))" "declared_value q = Some c" for q c
    using f that by (simp add: feasible_def linked_substitutions [OF assms] declared_substitutions_def)
  note occ = linked_needs_thrust [OF assms]
  have dv: "declared_value thrust = Some 87000" "declared_value S_q = Some 124.58"
    "declared_value K_q = Some 0.9" "declared_value climbspeed = Some (250 * (1852 / 3600))"
    by (simp_all add: declared_value_def units_simps)
  note cv = sub [OF occ(1) dv(1)] sub [OF occ(2) dv(2)] sub [OF occ(3) dv(3)] sub [OF occ(4) dv(4)]
  have "C (Le (El V_q 0) (Sc climbspeed)) \<in> set (constraints m)"
    using 0 by (simp add: p(4) Climb1_def Let_def)
  from satisfies_C [OF sat this]
  have V: "v (V_q, Some 0) \<le> 250 * (1852 / 3600)"
    by (simp add: cv)
  have "C (Eq (El rho 0) (Num (1.225 * units ''kg/m^3''))) \<in> set (constraints m)"
    using 0 by (simp add: p(4) Cruise2_parts(2) [OF p(1,3)])
  from satisfies_C [OF sat this]
  have rho0: "v (rho, Some 0) = 1.225"
    by (simp add: units_simps)
  have "C (Eq (Sc W_e) (Num (40000 * units ''N''))) \<in> set (constraints m)"
    "C (Eq (Sc W_payload) (Num (400000 * units ''N''))) \<in> set (constraints m)"
    by (simp_all add: p(4) Cruise2_parts(2) [OF p(1,3)])
  from satisfies_C [OF sat this(1)] satisfies_C [OF sat this(2)]
  have We: "v (W_e, None) = 40000" "v (W_payload, None) = 400000"
    by (simp_all add: units_simps)
  have "TCS [Le (Sc W_e + Sc W_payload + Sc W_ftotal) (Sc W_total)] \<in> set (constraints m)"
    "C (Eq (El W_start 0) (Sc W_total)) \<in> set (constraints m)"
    by (simp_all add: p(4) CommericalMissionConstraints_def Let_def)
  from satisfies_TCS [OF sat this(1), of "Le (Sc W_e + Sc W_payload + Sc W_ftotal) (Sc W_total)"]
    satisfies_C [OF sat this(2)] satisfies_pos [OF sat, of "(W_ftotal, None)"]
  have W: "440000 < v (W_start, Some 0)"
    by (simp add: We)
  let ?power = "\<lambda>i. Le (El RC i + Num 0.5 * Pow (El V_q i) 3 * El rho i * Sc S_q / El W_start i * Sc Cd0
                               + El W_start i / Sc S_q * Num 2 * Sc K_q / El rho i / El V_q i)
                              (El V_q i * Sc thrust / El W_start i)"
  have "TCS (map ?power (iclimb1 ix)) \<in> set (constraints m)"
    by (simp add: p(4) Climb1_def Let_def)
  moreover have "?power 0 \<in> set (map ?power (iclimb1 ix))"
    unfolding set_map by (rule image_eqI [where x = 0]) (simp_all add: 0)
  ultimately have "holds v (?power 0)"
    using sat by (rule satisfies_TCS [rotated])
  then have bal: "v (RC, Some 0) + 0.5 * (v (V_q, Some 0)) powr 3 * 1.225 * 124.58 / v (W_start, Some 0) * v (Cd0, None)
                 + v (W_start, Some 0) / 124.58 * 2 * 0.9 / 1.225 / v (V_q, Some 0)
               \<le> v (V_q, Some 0) * 87000 / v (W_start, Some 0)"
    by (simp add: cv rho0)
  have pos: "0 < v (RC, Some 0)" "0 < v (V_q, Some 0)" "0 < v (W_start, Some 0)" "0 < v (Cd0, None)"
    using satisfies_pos [OF sat] by simp_all
  have "0 < 0.5 * (v (V_q, Some 0)) powr 3 * 1.225 * 124.58 / v (W_start, Some 0) * v (Cd0, None)"
    using pos by simp
  with bal pos(1)
  have "v (W_start, Some 0) / 124.58 * 2 * 0.9 / 1.225 / v (V_q, Some 0)
          < v (V_q, Some 0) * 87000 / v (W_start, Some 0)"
    by linarith
  with power_balance_bound [OF W pos(2) V] show False by simp
qed



subsection \<open>Every index is in range\<close>

text \<open>
  Indexing a gpkit vector outside its declared length raises.  No constraint of a linked
  model that is built does so: every variable that occurs is a declared scalar, or the
  element of a declared vector at an index within its length.  The constraint lists above
  therefore have no failing branch of their own.
\<close>


lemmas count_defs = Nseg_def Nclimb_def Ncruise_def Nres_def Ntakeoff_def Ntrans_def
        Ncruise1_def Ncruiseclimb_def Ndecent_def Nlanding_def Nresclimb_def Nresdecent_def
        Nreslanding_def Nreshold_def

lemma Mission_well_indexed:
  assumes "0 < Nclimb1" "0 < Nclimb2" "0 < Ncruise2"
    "ix = \<lparr>iclimb1 = slots 0 Nclimb1, iclimb2 = slots Nclimb1 Nclimb2,
           icruise2 = slots (Nclimb1 + Nclimb2) Ncruise2, izbre = slots 0 Ncruise2\<rparr>"
    "k \<in> set (varkeys (constraints (CommericalMissionConstraints Nclimb1 Nclimb2 Ncruise2 ix)))"
  shows "well_indexed Nclimb1 Nclimb2 Ncruise2 k"
  using assms
  by (auto simp: CommericalMissionConstraints_def Let_def well_indexed_def declared_shape_def
      count_defs set_slots)

lemma Climb1_well_indexed:
  assumes "0 < Nclimb1" "0 < Nclimb2" "0 < Ncruise2"
    "ix = \<lparr>iclimb1 = slots 0 Nclimb1, iclimb2 = slots Nclimb1 Nclimb2,
           icruise2 = slots (Nclimb1 + Nclimb2) Ncruise2, izbre = slots 0 Ncruise2\<rparr>"
    "k \<in> set (varkeys (constraints (Climb1 Nclimb1 Nclimb2 Ncruise2 ix)))"
  shows "well_indexed Nclimb1 Nclimb2 Ncruise2 k"
  using assms
  by (auto simp: Climb1_def Let_def well_indexed_def declared_shape_def
      count_defs set_slots split: if_splits)

lemma Climb2_well_indexed:
  assumes "0 < Nclimb1" "0 < Nclimb2" "0 < Ncruise2"
    "ix = \<lparr>iclimb1 = slots 0 Nclimb1, iclimb2 = slots Nclimb1 Nclimb2,
           icruise2 = slots (Nclimb1 + Nclimb2) Ncruise2, izbre = slots 0 Ncruise2\<rparr>"
    "k \<in> set (varkeys (constraints (Climb2 Nclimb1 Nclimb2 Ncruise2 ix)))"
  shows "well_indexed Nclimb1 Nclimb2 Ncruise2 k"
  using assms
  by (auto simp: Climb2_def Let_def well_indexed_def declared_shape_def
      count_defs set_slots split: if_splits)

lemma Cruise2_well_indexed:
  assumes "build_indices Nclimb1 Nclimb2 Ncruise2 = Inr ix" "Cruise2 Nclimb1 Nclimb2 Ncruise2 ix = Inr c2"
    "k \<in> set (varkeys (constraints c2))"
  shows "well_indexed Nclimb1 Nclimb2 Ncruise2 k"
  using assms(3) build_indices_InrD(1,2) [OF assms(1)] Cruise2_parts(1) [OF assms(1,2)]
  by (auto simp: Cruise2_parts(2) [OF assms(1,2)] te_exp_minus1_3 well_indexed_def declared_shape_def
      count_defs set_slots split: if_splits)


lemma linked_well_indexed:
  assumes "CommercialAircraft Nclimb1 Nclimb2 Ncruise2 = Inr m"
    and "k \<in> set (varkeys (constraints m))"
  shows "well_indexed Nclimb1 Nclimb2 Ncruise2 k"
proof -
  from assms(1) obtain ix c2 where p: "build_indices Nclimb1 Nclimb2 Ncruise2 = Inr ix"
      "ix = \<lparr>iclimb1 = slots 0 Nclimb1, iclimb2 = slots Nclimb1 Nclimb2,
           icruise2 = slots (Nclimb1 + Nclimb2) Ncruise2, izbre = slots 0 Ncruise2\<rparr>"
      "Cruise2 Nclimb1 Nclimb2 Ncruise2 ix = Inr c2"
      "constraints m = constraints (CommericalMissionConstraints Nclimb1 Nclimb2 Ncruise2 ix)
               @ constraints (Climb1 Nclimb1 Nclimb2 Ncruise2 ix)
               @ constraints (Climb2 Nclimb1 Nclimb2 Ncruise2 ix)
               @ constraints c2"
      "0 < Nclimb1" "0 < Nclimb2" "0 < Ncruise2"
    by (rule linked_parts)
  from assms(2) consider
      "k \<in> set (varkeys (constraints (CommericalMissionConstraints Nclimb1 Nclimb2 Ncruise2 ix)))"
    | "k \<in> set (varkeys (constraints (Climb1 Nclimb1 Nclimb2 Ncruise2 ix)))"
    | "k \<in> set (varkeys (constraints (Climb2 Nclimb1 Nclimb2 Ncruise2 ix)))"
    | "k \<in> set (varkeys (constraints c2))"
    by (auto simp: p(4))
  then show ?thesis
  proof cases
    case 1 then show ?thesis by (rule Mission_well_indexed [OF p(5,6,7,2)])
  next
    case 2 then show ?thesis by (rule Climb1_well_indexed [OF p(5,6,7,2)])
  next
    case 3 then show ?thesis by (rule Climb2_well_indexed [OF p(5,6,7,2)])
  next
    case 4 then show ?thesis by (rule Cruise2_well_indexed [OF p(1,3)])
  qed
qed


section \<open>Properties of the mission model (claims C1, C2, C5, C9)\<close>


lemma sum_list_pos_ge_last:
  fixes f :: "int \<Rightarrow> real"
  assumes "\<And>j. 0 < f j" "0 \<le> k"
  shows "f k \<le> sum_list (map f [0..k])"
proof -
  have "[0..k] = [0..k - 1] @ [k]"
    using assms(2) by (simp add: upto_rec2)
  then have "sum_list (map f [0..k]) = sum_list (map f [0..k - 1]) + f k"
    by simp
  moreover have "0 \<le> sum_list (map f [0..k - 1])"
    by (rule sum_list_nonneg) (auto simp: less_imp_le assms(1))
  ultimately show ?thesis by simp
qed

text \<open>
  Claim C1.  In the linked model, every positive valuation that meets the constraints (so
  every feasible solution) gives cruise segment \<open>k\<close>, counted from 0, a range
  \<open>RngCruise[k]\<close> of at least \<open>(k + 1) * ReqRngCruise / Nseg\<close>; the segment ranges being
  positive, the range accumulated over the segments \<open>0, \<dots>, k\<close> is at least that too.
\<close>

theorem staged_cruise_range:
  assumes "CommercialAircraft Nclimb1 Nclimb2 Ncruise2 = Inr m"
    and "satisfies v (constraints m)"
    and "0 \<le> k" "k < Ncruise2"
  shows "v (RngCruise, Some k)
           \<ge> of_int (k + 1) * v (ReqRngCruise, None) / of_int (Nseg Nclimb1 Nclimb2 Ncruise2)
       \<and> sum_list (map (\<lambda>j. v (RngCruise, Some j)) [0..k])
           \<ge> of_int (k + 1) * v (ReqRngCruise, None) / of_int (Nseg Nclimb1 Nclimb2 Ncruise2)"
proof -
  from assms(1) obtain ix c2 where p: "build_indices Nclimb1 Nclimb2 Ncruise2 = Inr ix"
      "Cruise2 Nclimb1 Nclimb2 Ncruise2 ix = Inr c2"
      "constraints m = constraints (CommericalMissionConstraints Nclimb1 Nclimb2 Ncruise2 ix)
               @ constraints (Climb1 Nclimb1 Nclimb2 Ncruise2 ix)
               @ constraints (Climb2 Nclimb1 Nclimb2 Ncruise2 ix)
               @ constraints c2"
    by (rule linked_parts)
  have "TCS [Ge (El RngCruise k) (Num (of_int (k + 1)) * Sc ReqRngCruise
                    / Num (of_int (Nseg Nclimb1 Nclimb2 Ncruise2)))] \<in> set (constraints m)"
    using Cruise2_staged_mem [OF p(1,2) assms(3,4)] by (simp add: p(3))
  from satisfies_TCS [OF assms(2) this, of "Ge (El RngCruise k) (Num (of_int (k + 1)) * Sc ReqRngCruise
                    / Num (of_int (Nseg Nclimb1 Nclimb2 Ncruise2)))"]
  have seg: "v (RngCruise, Some k)
           \<ge> of_int (k + 1) * v (ReqRngCruise, None) / of_int (Nseg Nclimb1 Nclimb2 Ncruise2)"
    by simp
  have "v (RngCruise, Some k) \<le> sum_list (map (\<lambda>j. v (RngCruise, Some j)) [0..k])"
    using satisfies_pos [OF assms(2)] assms(3) by (intro sum_list_pos_ge_last) simp_all
  with seg show ?thesis by linarith
qed

theorem staged_cruise_range_witness:
  "\<exists>m. CommercialAircraft 3 3 3 = Inr m \<and> satisfies sample_solution (constraints m)
      \<and> sample_solution (RngCruise, Some 2) \<ge> 3 * sample_solution (ReqRngCruise, None) / 9
      \<and> sum_list (map (\<lambda>j. sample_solution (RngCruise, Some j)) [0..2])
           \<ge> 3 * sample_solution (ReqRngCruise, None) / 9"
proof -
  obtain m where m: "CommercialAircraft 3 3 3 = Inr m" "satisfies sample_solution (constraints m)"
    using sample_linked by blast
  have h: "(0::int) \<le> 2" "(2::int) < 3" by simp_all
  from staged_cruise_range [OF m h] m show ?thesis
    by (auto simp: Nseg333)
qed

text \<open>
  Claim C9.  In the linked model, every positive valuation that meets the constraints (so
  every feasible solution) puts every cruise-phase-2 segment and the last climb segment,
  index \<open>Nclimb - 1\<close>, at exactly 35,000 ft: \<open>Cruise2\<close> fixes the altitude of the cruise
  segments, and the mission-wide group equates it with the altitude of the last climb
  segment.
\<close>

theorem cruise_altitude_pins_climb:
  assumes "CommercialAircraft Nclimb1 Nclimb2 Ncruise2 = Inr m"
    and "satisfies v (constraints m)"
    and "Nclimb1 + Nclimb2 \<le> i" "i < Nclimb1 + Nclimb2 + Ncruise2"
  shows "v (hft, Some i) = 35000 * units ''ft''
       \<and> v (hft, Some (Nclimb Nclimb1 Nclimb2 - 1)) = 35000 * units ''ft''"
proof -
  from assms(1) obtain ix c2 where p: "build_indices Nclimb1 Nclimb2 Ncruise2 = Inr ix"
      "ix = \<lparr>iclimb1 = slots 0 Nclimb1, iclimb2 = slots Nclimb1 Nclimb2,
           icruise2 = slots (Nclimb1 + Nclimb2) Ncruise2, izbre = slots 0 Ncruise2\<rparr>"
      "Cruise2 Nclimb1 Nclimb2 Ncruise2 ix = Inr c2"
      "constraints m = constraints (CommericalMissionConstraints Nclimb1 Nclimb2 Ncruise2 ix)
               @ constraints (Climb1 Nclimb1 Nclimb2 Ncruise2 ix)
               @ constraints (Climb2 Nclimb1 Nclimb2 Ncruise2 ix)
               @ constraints c2"
    by (rule linked_parts)
  have "C (Eq (El hft i) (Num (35000 * units ''ft''))) \<in> set (constraints m)"
    using Cruise2_altitude_mem [OF p(1,3) assms(3,4)] by (simp add: p(4))
  from satisfies_C [OF assms(2) this]
  have a: "v (hft, Some i) = 35000 * units ''ft''" by simp
  have "i \<in> set (icruise2 ix)"
    using assms(3,4) by (simp add: p(2) set_slots)
  then have "C (Eq (El hft i) (El hft (Nclimb Nclimb1 Nclimb2 - 1)))
               \<in> set (constraints (CommericalMissionConstraints Nclimb1 Nclimb2 Ncruise2 ix))"
    by (simp add: CommericalMissionConstraints_def Let_def)
  then have "C (Eq (El hft i) (El hft (Nclimb Nclimb1 Nclimb2 - 1))) \<in> set (constraints m)"
    by (simp add: p(4))
  from satisfies_C [OF assms(2) this]
  have "v (hft, Some i) = v (hft, Some (Nclimb Nclimb1 Nclimb2 - 1))" by simp
  with a show ?thesis by simp
qed

theorem cruise_altitude_pins_climb_witness:
  "\<exists>m. CommercialAircraft 3 3 3 = Inr m \<and> satisfies sample_solution (constraints m)
      \<and> sample_solution (hft, Some 7) = 35000 * units ''ft''
      \<and> sample_solution (hft, Some 5) = 35000 * units ''ft''"
proof -
  obtain m where m: "CommercialAircraft 3 3 3 = Inr m" "satisfies sample_solution (constraints m)"
    using sample_linked by blast
  have h: "(3::int) + 3 \<le> 7" "(7::int) < 3 + 3 + 3" by simp_all
  from cruise_altitude_pins_climb [OF m h] m show ?thesis
    by (auto simp: Nseg333)
qed

text \<open>
  Claim C2.  For every segment index \<open>i\<close> with \<open>0 < i < Nseg\<close>, the mission-wide group,
  and with it the linked model, contains the equality \<open>W_start[i] == W_end[i-1]\<close> as a
  plain constraint, outside any \<^verbatim>\<open>TightConstraintSet\<close>; so every positive valuation that
  meets the constraints of the linked model (every feasible solution) has
  \<open>W_start[i] = W_end[i-1]\<close>.
\<close>

theorem weight_continuity:
  assumes "CommercialAircraft Nclimb1 Nclimb2 Ncruise2 = Inr m"
    and "satisfies v (constraints m)"
    and "0 < i" "i < Nseg Nclimb1 Nclimb2 Ncruise2"
  shows "(\<exists>ix. build_indices Nclimb1 Nclimb2 Ncruise2 = Inr ix
            \<and> C (Eq (El W_start i) (El W_end (i - 1)))
                \<in> set (constraints (CommericalMissionConstraints Nclimb1 Nclimb2 Ncruise2 ix)))
       \<and> C (Eq (El W_start i) (El W_end (i - 1))) \<in> set (constraints m)
       \<and> v (W_start, Some i) = v (W_end, Some (i - 1))"
proof -
  from assms(1) obtain ix c2 where p: "build_indices Nclimb1 Nclimb2 Ncruise2 = Inr ix"
      "Cruise2 Nclimb1 Nclimb2 Ncruise2 ix = Inr c2"
      "constraints m = constraints (CommericalMissionConstraints Nclimb1 Nclimb2 Ncruise2 ix)
               @ constraints (Climb1 Nclimb1 Nclimb2 Ncruise2 ix)
               @ constraints (Climb2 Nclimb1 Nclimb2 Ncruise2 ix)
               @ constraints c2"
    by (rule linked_parts)
  have g: "C (Eq (El W_start i) (El W_end (i - 1)))
             \<in> set (constraints (CommericalMissionConstraints Nclimb1 Nclimb2 Ncruise2 ix))"
    using assms(3,4) by (simp add: CommericalMissionConstraints_def Let_def)
  then have l: "C (Eq (El W_start i) (El W_end (i - 1))) \<in> set (constraints m)"
    by (simp add: p(3))
  from satisfies_C [OF assms(2) l]
  have "v (W_start, Some i) = v (W_end, Some (i - 1))" by simp
  with p(1) g l show ?thesis by blast
qed


theorem weight_continuity_witness:
  "\<exists>m. CommercialAircraft 3 3 3 = Inr m \<and> satisfies sample_solution (constraints m)
      \<and> C (Eq (El W_start 6) (El W_end 5)) \<in> set (constraints m)
      \<and> sample_solution (W_start, Some 6) = sample_solution (W_end, Some 5)"
proof -
  obtain m where m: "CommercialAircraft 3 3 3 = Inr m" "satisfies sample_solution (constraints m)"
    using sample_linked by blast
  have h: "(0::int) < 6" "(6::int) < Nseg 3 3 3" by (simp_all add: Nseg333)
  from weight_continuity [OF m h] m show ?thesis
    by auto
qed

text \<open>
  Claim C5.  For the \<open>k\<close>-th cruise-phase-2 segment, which is slot
  \<open>s = Nclimb1 + Nclimb2 + k\<close> and Breguet entry \<open>k\<close>, the \<open>Cruise2\<close> group holds, inside
  tight constraint sets, \<open>W_fuel[s] / W_end[s] >= te_exp_minus1(z_bre[k], 3)\<close> and
  \<open>RngCruise[k] <= z_bre[k] * LD[s] * V[s] / (TSFC[s] * g)\<close>.  The expansion evaluates to
  \<open>z + z\<^sup>2/2 + z\<^sup>3/6\<close>, so every positive valuation that meets the group's constraints
  has the fuel-to-end-weight ratio at least that, and the segment range at most
  \<open>z * (L/D) * V / (TSFC * g)\<close>.
\<close>

theorem cruise_breguet:
  assumes "build_indices Nclimb1 Nclimb2 Ncruise2 = Inr ix"
    and "Cruise2 Nclimb1 Nclimb2 Ncruise2 ix = Inr c2"
    and "satisfies v (constraints c2)"
    and "0 \<le> k" "k < Ncruise2" "s = Nclimb1 + Nclimb2 + k"
  shows "py_index (icruise2 ix) k = Inr s \<and> py_index (izbre ix) k = Inr k
       \<and> (\<exists>ts. TCS ts \<in> set (constraints c2)
              \<and> Ge (El W_fuel s / El W_end s) (te_exp_minus1 (El z_bre k) 3) \<in> set ts)
       \<and> (\<exists>ts. TCS ts \<in> set (constraints c2)
              \<and> Le (El RngCruise k) (El z_bre k * El LD s * El V_q s / (El TSFC s * Sc g_q)) \<in> set ts)
       \<and> v (W_fuel, Some s) / v (W_end, Some s)
            \<ge> v (z_bre, Some k) + (v (z_bre, Some k))\<^sup>2 / 2 + (v (z_bre, Some k)) ^ 3 / 6
       \<and> v (RngCruise, Some k)
            \<le> v (z_bre, Some k) * v (LD, Some s) * v (V_q, Some s) / (v (TSFC, Some s) * v (g_q, None))"
proof -
  note d = build_indices_InrD [OF assms(1)]
  have idx: "py_index (icruise2 ix) k = Inr s" "py_index (izbre ix) k = Inr k"
    using assms(4,5,6) by (simp_all add: d(4) py_index_def slots_nth)
  note mem = Cruise2_breguet_mem [OF assms(1,2,4,5), folded assms(6)]
  from mem(1) obtain ts where ts: "TCS ts \<in> set (constraints c2)"
      "Ge (El W_fuel s / El W_end s) (te_exp_minus1 (El z_bre k) 3) \<in> set ts"
    by blast
  have z: "0 < eval v (El z_bre k)"
    using satisfies_pos [OF assms(3)] by simp
  from satisfies_TCS [OF assms(3) ts]
  have fuel: "v (W_fuel, Some s) / v (W_end, Some s)
            \<ge> v (z_bre, Some k) + (v (z_bre, Some k))\<^sup>2 / 2 + (v (z_bre, Some k)) ^ 3 / 6"
    using eval_te_exp_minus1_3 [OF z] by simp
  from mem(2) obtain us where us: "TCS us \<in> set (constraints c2)"
      "Le (El RngCruise k) (El z_bre k * El LD s * El V_q s / (El TSFC s * Sc g_q)) \<in> set us"
    by blast
  from satisfies_TCS [OF assms(3) us]
  have rng: "v (RngCruise, Some k)
            \<le> v (z_bre, Some k) * v (LD, Some s) * v (V_q, Some s) / (v (TSFC, Some s) * v (g_q, None))"
    by simp
  from idx mem fuel rng show ?thesis by blast
qed

theorem cruise_breguet_witness:
  "\<exists>c2. build_indices 3 3 3 = Inr ix333 \<and> Cruise2 3 3 3 ix333 = Inr c2
      \<and> satisfies sample_solution (constraints c2)
      \<and> sample_solution (W_fuel, Some 7) / sample_solution (W_end, Some 7)
            \<ge> sample_solution (z_bre, Some 1) + (sample_solution (z_bre, Some 1))\<^sup>2 / 2
                 + (sample_solution (z_bre, Some 1)) ^ 3 / 6
      \<and> sample_solution (RngCruise, Some 1)
            \<le> sample_solution (z_bre, Some 1) * sample_solution (LD, Some 7) * sample_solution (V_q, Some 7)
                 / (sample_solution (TSFC, Some 7) * sample_solution (g_q, None))"
proof -
  obtain c2 where c2: "Cruise2 3 3 3 ix333 = Inr c2" "satisfies sample_solution (constraints c2)"
    using sample_Cruise2_satisfies by blast
  have h: "(0::int) \<le> 1" "(1::int) < 3" "(7::int) = 3 + 3 + 1" by simp_all
  from cruise_breguet [OF build333 c2 h] build333 c2 show ?thesis
    by auto
qed


section \<open>The climb range constraint (claim C7)\<close>

text \<open>The climb groups.\<close>

lemma Climb1_range_mem:
  assumes "i \<in> set (iclimb1 ix)"
  shows "\<exists>ts. TCS ts \<in> set (constraints (Climb1 Nclimb1 Nclimb2 Ncruise2 ix))
            \<and> Le (El RngClimb i + Num 0.5 * El thours i * El V_q i * Pow (El theta i) 2)
                  (El thours i * El V_q i) \<in> set ts"
    and "C (Eq (El theta i * El V_q i) (El RC i)) \<in> set (constraints (Climb1 Nclimb1 Nclimb2 Ncruise2 ix))"
proof -
  let ?ts = "map (\<lambda>i. Le (El RngClimb i + Num 0.5 * El thours i * El V_q i * Pow (El theta i) 2)
                              (El thours i * El V_q i)) (iclimb1 ix)"
  have "TCS ?ts \<in> set (constraints (Climb1 Nclimb1 Nclimb2 Ncruise2 ix))"
    by (simp add: Climb1_def Let_def)
  moreover have "Le (El RngClimb i + Num 0.5 * El thours i * El V_q i * Pow (El theta i) 2)
                  (El thours i * El V_q i) \<in> set ?ts"
    unfolding set_map by (rule image_eqI [where x = i]) (simp_all add: assms)
  ultimately show "\<exists>ts. TCS ts \<in> set (constraints (Climb1 Nclimb1 Nclimb2 Ncruise2 ix))
            \<and> Le (El RngClimb i + Num 0.5 * El thours i * El V_q i * Pow (El theta i) 2)
                  (El thours i * El V_q i) \<in> set ts"
    by blast
  show "C (Eq (El theta i * El V_q i) (El RC i)) \<in> set (constraints (Climb1 Nclimb1 Nclimb2 Ncruise2 ix))"
    using assms by (simp add: Climb1_def Let_def)
qed

lemma Climb2_range_mem:
  assumes "i \<in> set (iclimb2 ix)"
  shows "\<exists>ts. TCS ts \<in> set (constraints (Climb2 Nclimb1 Nclimb2 Ncruise2 ix))
            \<and> Le (El RngClimb i + Num 0.5 * El thours i * El V_q i * Pow (El theta i) 2)
                  (El thours i * El V_q i) \<in> set ts"
    and "C (Eq (El theta i * El V_q i) (El RC i)) \<in> set (constraints (Climb2 Nclimb1 Nclimb2 Ncruise2 ix))"
proof -
  let ?ts = "map (\<lambda>i. Le (El RngClimb i + Num 0.5 * El thours i * El V_q i * Pow (El theta i) 2)
                              (El thours i * El V_q i)) (iclimb2 ix)"
  have "TCS ?ts \<in> set (constraints (Climb2 Nclimb1 Nclimb2 Ncruise2 ix))"
    by (simp add: Climb2_def Let_def)
  moreover have "Le (El RngClimb i + Num 0.5 * El thours i * El V_q i * Pow (El theta i) 2)
                  (El thours i * El V_q i) \<in> set ?ts"
    unfolding set_map by (rule image_eqI [where x = i]) (simp_all add: assms)
  ultimately show "\<exists>ts. TCS ts \<in> set (constraints (Climb2 Nclimb1 Nclimb2 Ncruise2 ix))
            \<and> Le (El RngClimb i + Num 0.5 * El thours i * El V_q i * Pow (El theta i) 2)
                  (El thours i * El V_q i) \<in> set ts"
    by blast
  show "C (Eq (El theta i * El V_q i) (El RC i)) \<in> set (constraints (Climb2 Nclimb1 Nclimb2 Ncruise2 ix))"
    using assms by (simp add: Climb2_def Let_def)
qed

text \<open>
  Claim C7.  Every climb segment \<open>i\<close> (\<open>0 \<le> i < Nclimb\<close>) lies in climb phase 1 when
  \<open>i < Nclimb1\<close> and in climb phase 2 otherwise.  The group of its phase holds, inside a
  tight constraint set, \<open>RngClimb[i] + 0.5 * thours[i] * V[i] * theta[i]**2 <= thours[i] * V[i]\<close>,
  and, as a plain equality, \<open>theta[i] * V[i] == RC[i]\<close>; both are constraints of the linked
  model, so every positive valuation that meets its constraints satisfies the two
  relations.
\<close>

theorem climb_range_cosine:
  assumes "CommercialAircraft Nclimb1 Nclimb2 Ncruise2 = Inr m"
    and "satisfies v (constraints m)"
    and "0 \<le> i" "i < Nclimb Nclimb1 Nclimb2"
    and "build_indices Nclimb1 Nclimb2 Ncruise2 = Inr ix"
    and "G = (if i < Nclimb1 then Climb1 Nclimb1 Nclimb2 Ncruise2 ix else Climb2 Nclimb1 Nclimb2 Ncruise2 ix)"
  shows "i \<in> set (if i < Nclimb1 then iclimb1 ix else iclimb2 ix)
       \<and> (\<exists>ts. TCS ts \<in> set (constraints G)
              \<and> Le (El RngClimb i + Num 0.5 * El thours i * El V_q i * Pow (El theta i) 2)
                    (El thours i * El V_q i) \<in> set ts)
       \<and> C (Eq (El theta i * El V_q i) (El RC i)) \<in> set (constraints G)
       \<and> set (constraints G) \<subseteq> set (constraints m)
       \<and> v (RngClimb, Some i) + 0.5 * v (thours, Some i) * v (V_q, Some i) * (v (theta, Some i))\<^sup>2
            \<le> v (thours, Some i) * v (V_q, Some i)
       \<and> v (theta, Some i) * v (V_q, Some i) = v (RC, Some i)"
proof -
  from assms(1) obtain ix' c2 where p: "build_indices Nclimb1 Nclimb2 Ncruise2 = Inr ix'"
      "ix' = \<lparr>iclimb1 = slots 0 Nclimb1, iclimb2 = slots Nclimb1 Nclimb2,
           icruise2 = slots (Nclimb1 + Nclimb2) Ncruise2, izbre = slots 0 Ncruise2\<rparr>"
      "Cruise2 Nclimb1 Nclimb2 Ncruise2 ix' = Inr c2"
      "constraints m = constraints (CommericalMissionConstraints Nclimb1 Nclimb2 Ncruise2 ix')
               @ constraints (Climb1 Nclimb1 Nclimb2 Ncruise2 ix')
               @ constraints (Climb2 Nclimb1 Nclimb2 Ncruise2 ix')
               @ constraints c2"
    by (rule linked_parts)
  have ix: "ix' = ix" using p(1) assms(5) by simp
  have sub: "set (constraints G) \<subseteq> set (constraints m)"
    by (auto simp: assms(6) p(4) ix)
  have i: "i \<in> set (if i < Nclimb1 then iclimb1 ix else iclimb2 ix)"
    using assms(3,4) p(2) by (auto simp: ix [symmetric] set_slots Nclimb_def Ncruiseclimb_def)
  have mem: "\<exists>ts. TCS ts \<in> set (constraints G)
              \<and> Le (El RngClimb i + Num 0.5 * El thours i * El V_q i * Pow (El theta i) 2)
                    (El thours i * El V_q i) \<in> set ts"
    "C (Eq (El theta i * El V_q i) (El RC i)) \<in> set (constraints G)"
    using i Climb1_range_mem [of i ix Nclimb1 Nclimb2 Ncruise2]
      Climb2_range_mem [of i ix Nclimb1 Nclimb2 Ncruise2]
    by (auto simp: assms(6) split: if_splits)
  from mem(1) obtain ts where ts: "TCS ts \<in> set (constraints m)"
      "Le (El RngClimb i + Num 0.5 * El thours i * El V_q i * Pow (El theta i) 2)
          (El thours i * El V_q i) \<in> set ts"
    using sub by blast
  have th: "0 < v (theta, Some i)"
    using satisfies_pos [OF assms(2)] by simp
  from satisfies_TCS [OF assms(2) ts] th
  have r: "v (RngClimb, Some i) + 0.5 * v (thours, Some i) * v (V_q, Some i) * (v (theta, Some i))\<^sup>2
            \<le> v (thours, Some i) * v (V_q, Some i)"
    by simp
  have "C (Eq (El theta i * El V_q i) (El RC i)) \<in> set (constraints m)"
    using mem(2) sub by blast
  from satisfies_C [OF assms(2) this]
  have "v (theta, Some i) * v (V_q, Some i) = v (RC, Some i)" by simp
  with i mem sub r show ?thesis by blast
qed

theorem climb_range_cosine_witness:
  "\<exists>m. CommercialAircraft 3 3 3 = Inr m \<and> satisfies sample_solution (constraints m)
      \<and> build_indices 3 3 3 = Inr ix333
      \<and> set (constraints (Climb2 3 3 3 ix333)) \<subseteq> set (constraints m)
      \<and> sample_solution (RngClimb, Some 4)
           + 0.5 * sample_solution (thours, Some 4) * sample_solution (V_q, Some 4)
               * (sample_solution (theta, Some 4))\<^sup>2
            \<le> sample_solution (thours, Some 4) * sample_solution (V_q, Some 4)
      \<and> sample_solution (theta, Some 4) * sample_solution (V_q, Some 4) = sample_solution (RC, Some 4)"
proof -
  obtain m where m: "CommercialAircraft 3 3 3 = Inr m" "satisfies sample_solution (constraints m)"
    using sample_linked by blast
  have h: "(0::int) \<le> 4" "(4::int) < Nclimb 3 3" by (simp_all add: Nseg333)
  have G: "Climb2 3 3 3 ix333 = (if (4::int) < 3 then Climb1 3 3 3 ix333 else Climb2 3 3 3 ix333)"
    by simp
  from climb_range_cosine [OF m h build333 G] m build333 show ?thesis
    by auto
qed

section \<open>The mission-wide altitude constraints (claim C6)\<close>

lemma Mission_no_thrust:
  "(thrust, None) \<notin> set (varkeys (constraints (CommericalMissionConstraints Nclimb1 Nclimb2 Ncruise2 ix)))"
  by (simp add: CommericalMissionConstraints_def Let_def)

lemma Mission_no_K:
  "(K_q, None) \<notin> set (varkeys (constraints (CommericalMissionConstraints Nclimb1 Nclimb2 Ncruise2 ix)))"
  by (simp add: CommericalMissionConstraints_def Let_def)

lemma sample_Mission_feasible:
  "feasible (CommericalMissionConstraints 3 3 3 ix333) sample_solution"
proof -
  have "sample_solution k = c"
    if "substitutions (CommericalMissionConstraints 3 3 3 ix333) k = Some c" for k c
  proof -
    obtain q oi where k: "k = (q, oi)" by (cases k)
    from that have s: "oi = None" "declared_value q = Some c"
        "(q, None) \<in> set (varkeys (constraints (CommericalMissionConstraints 3 3 3 ix333)))"
      by (auto simp: k CommericalMissionConstraints_def Let_def Model_def declared_substitutions_def
          split: if_splits)
    have "q \<noteq> thrust" "q \<noteq> K_q"
      using s(3) Mission_no_thrust Mission_no_K by auto
    moreover have "q \<noteq> ReqRngCruise" "q \<noteq> W_e" "q \<noteq> W_payload" "q \<noteq> W_ftotal" "q \<noteq> W_total"
      using s(2) by (auto simp: declared_value_def)
    ultimately show ?thesis
      using s(1,2) by (simp add: k sample_solution_def sample_scalar_def)
  qed
  then show ?thesis
    using sample_Mission by (simp add: feasible_def satisfies_def sample_positive)
qed

text \<open>
  Claim C6.  The mission-wide group holds the equality of the altitude of the last
  climb-phase-1 segment, \<open>hft[Ntakeoff + Nclimb1 - 1]\<close>, with \<open>alt10k\<close>, which is
  substituted by its declared value of 10,000 feet, and, for every cruise-phase-2 slot
  \<open>i\<close>, the equality of \<open>hft[i]\<close> with \<open>hft[Nclimb - 1]\<close>.  So in every feasible solution of
  the group the former altitude is exactly 10,000 ft and the cruise altitudes equal that of
  the last climb segment.
\<close>

theorem mission_altitude_constraints:
  assumes "build_indices Nclimb1 Nclimb2 Ncruise2 = Inr ix"
    and "G = CommericalMissionConstraints Nclimb1 Nclimb2 Ncruise2 ix"
    and "feasible G v"
  shows "C (Eq (El hft (Ntakeoff + Nclimb1 - 1)) (Sc alt10k)) \<in> set (constraints G)
       \<and> substitutions G (alt10k, None) = Some (10000 * units ''feet'')
       \<and> v (hft, Some (Nclimb1 - 1)) = 10000 * units ''ft''
       \<and> (\<forall>i \<in> set (icruise2 ix).
             C (Eq (El hft i) (El hft (Nclimb Nclimb1 Nclimb2 - 1))) \<in> set (constraints G)
             \<and> v (hft, Some i) = v (hft, Some (Nclimb Nclimb1 Nclimb2 - 1)))"
proof -
  have sat: "satisfies v (constraints G)"
    using assms(3) by (rule feasible_satisfies)
  have m1: "C (Eq (El hft (Ntakeoff + Nclimb1 - 1)) (Sc alt10k)) \<in> set (constraints G)"
    by (simp add: assms(2) CommericalMissionConstraints_def Let_def)
  have "(alt10k, None) \<in> set (varkeys (constraints G))"
    by (rule varkeys_memI [OF m1]) simp
  then have sub: "substitutions G (alt10k, None) = Some (10000 * units ''feet'')"
    by (simp add: assms(2) CommericalMissionConstraints_def Let_def Model_def
        declared_substitutions_def declared_value_def)
  then have "v (alt10k, None) = 10000 * units ''feet''"
    using assms(3) by (simp add: feasible_def)
  moreover from satisfies_C [OF sat m1]
  have "v (hft, Some (Ntakeoff + Nclimb1 - 1)) = v (alt10k, None)" by simp
  ultimately have v1: "v (hft, Some (Nclimb1 - 1)) = 10000 * units ''ft''"
    by (simp add: Ntakeoff_def units_simps)
  have m2: "\<forall>i \<in> set (icruise2 ix).
             C (Eq (El hft i) (El hft (Nclimb Nclimb1 Nclimb2 - 1))) \<in> set (constraints G)
             \<and> v (hft, Some i) = v (hft, Some (Nclimb Nclimb1 Nclimb2 - 1))"
  proof
    fix i assume "i \<in> set (icruise2 ix)"
    then have c: "C (Eq (El hft i) (El hft (Nclimb Nclimb1 Nclimb2 - 1))) \<in> set (constraints G)"
      by (simp add: assms(2) CommericalMissionConstraints_def Let_def)
    from satisfies_C [OF sat c]
    have "v (hft, Some i) = v (hft, Some (Nclimb Nclimb1 Nclimb2 - 1))" by simp
    with c show "C (Eq (El hft i) (El hft (Nclimb Nclimb1 Nclimb2 - 1))) \<in> set (constraints G)
             \<and> v (hft, Some i) = v (hft, Some (Nclimb Nclimb1 Nclimb2 - 1))"
      by simp
  qed
  from m1 sub v1 m2 show ?thesis by blast
qed

theorem mission_altitude_constraints_witness:
  "build_indices 3 3 3 = Inr ix333
     \<and> feasible (CommericalMissionConstraints 3 3 3 ix333) sample_solution
     \<and> 8 \<in> set (icruise2 ix333)
     \<and> sample_solution (hft, Some 2) = 10000 * units ''ft''
     \<and> sample_solution (hft, Some 8) = sample_solution (hft, Some 5)"
proof -
  have i: "8 \<in> set (icruise2 ix333)"
    by (simp add: ix333_def slots3)
  from mission_altitude_constraints [OF build333 refl sample_Mission_feasible] i
  have "sample_solution (hft, Some (3 - 1)) = 10000 * units ''ft''
      \<and> sample_solution (hft, Some 8) = sample_solution (hft, Some (Nclimb 3 3 - 1))"
    by blast
  with build333 sample_Mission_feasible i show ?thesis
    by (simp add: Nseg333)
qed



section \<open>The Breguet parameter vector (claim C10)\<close>


lemma z_bre_Mission:
  "(z_bre, oi) \<notin> set (varkeys (constraints (CommericalMissionConstraints Nclimb1 Nclimb2 Ncruise2 ix)))"
  by (simp add: CommericalMissionConstraints_def Let_def)

lemma z_bre_Climb1:
  "(z_bre, oi) \<notin> set (varkeys (constraints (Climb1 Nclimb1 Nclimb2 Ncruise2 ix)))"
  by (simp add: Climb1_def Let_def)

lemma z_bre_Climb2:
  "(z_bre, oi) \<notin> set (varkeys (constraints (Climb2 Nclimb1 Nclimb2 Ncruise2 ix)))"
  by (simp add: Climb2_def Let_def)

lemma z_bre_Cruise2:
  assumes "build_indices Nclimb1 Nclimb2 Ncruise2 = Inr ix" "Cruise2 Nclimb1 Nclimb2 Ncruise2 ix = Inr c2"
  shows "(z_bre, oi) \<in> set (varkeys (constraints c2)) \<longleftrightarrow> (\<exists>j. oi = Some j \<and> 0 \<le> j \<and> j < Ncruise2)"
  by (auto simp add: Cruise2_parts(2) [OF assms] te_exp_minus1_3 set_slots)


text \<open>
  Claim C10.  \<open>z_bre\<close> is declared with \<open>Nseg\<close> entries.  In the constraints of the linked
  model (the four groups together) the entries of \<open>z_bre\<close> that occur are exactly those
  with an index in \<open>izbre = [0, Ncruise2)\<close>.  These slots are disjoint from the cruise-2
  slots, and with \<open>Ncruise2 \<le> Nclimb1\<close>, as in the source (3 and 3), they are slots of
  climb phase 1.  The entries \<open>z_bre[Ncruise2], \<dots>, z_bre[Nseg - 1]\<close>, of which there is at
  least one, occur in no constraint.
\<close>

theorem breguet_vector_slots:
  assumes "CommercialAircraft Nclimb1 Nclimb2 Ncruise2 = Inr m"
    and "build_indices Nclimb1 Nclimb2 Ncruise2 = Inr ix"
    and "Ncruise2 \<le> Nclimb1"
  shows "declared_shape Nclimb1 Nclimb2 Ncruise2 z_bre = Vector (Nseg Nclimb1 Nclimb2 Ncruise2)
       \<and> izbre ix = [0 .. Ncruise2 - 1]
       \<and> (\<forall>j. (z_bre, Some j) \<in> set (varkeys (constraints m)) \<longleftrightarrow> j \<in> set (izbre ix))
       \<and> (z_bre, None) \<notin> set (varkeys (constraints m))
       \<and> set (izbre ix) \<subseteq> set (iclimb1 ix)
       \<and> set (izbre ix) \<inter> set (icruise2 ix) = {}
       \<and> Ncruise2 < Nseg Nclimb1 Nclimb2 Ncruise2
       \<and> (\<forall>j. Ncruise2 \<le> j \<and> j < Nseg Nclimb1 Nclimb2 Ncruise2
               \<longrightarrow> (z_bre, Some j) \<notin> set (varkeys (constraints m)))"
proof -
  from assms(1) obtain ix' c2 where p: "build_indices Nclimb1 Nclimb2 Ncruise2 = Inr ix'"
      "ix' = \<lparr>iclimb1 = slots 0 Nclimb1, iclimb2 = slots Nclimb1 Nclimb2,
           icruise2 = slots (Nclimb1 + Nclimb2) Ncruise2, izbre = slots 0 Ncruise2\<rparr>"
      "Cruise2 Nclimb1 Nclimb2 Ncruise2 ix' = Inr c2"
      "constraints m = constraints (CommericalMissionConstraints Nclimb1 Nclimb2 Ncruise2 ix')
               @ constraints (Climb1 Nclimb1 Nclimb2 Ncruise2 ix')
               @ constraints (Climb2 Nclimb1 Nclimb2 Ncruise2 ix')
               @ constraints c2"
      "0 < Nclimb1" "0 < Nclimb2" "0 < Ncruise2"
    by (rule linked_parts)
  have ix: "ix = ix'" using p(1) assms(2) by simp
  have occ: "(z_bre, oi) \<in> set (varkeys (constraints m)) \<longleftrightarrow> (\<exists>j. oi = Some j \<and> 0 \<le> j \<and> j < Ncruise2)" for oi
    by (simp add: p(4) z_bre_Mission z_bre_Climb1 z_bre_Climb2 z_bre_Cruise2 [OF p(1,3)])
  have "declared_shape Nclimb1 Nclimb2 Ncruise2 z_bre = Vector (Nseg Nclimb1 Nclimb2 Ncruise2)"
    by (simp add: declared_shape_def)
  moreover have "izbre ix = [0 .. Ncruise2 - 1]"
    by (simp add: ix p(2) slots_upto)
  moreover have "\<forall>j. (z_bre, Some j) \<in> set (varkeys (constraints m)) \<longleftrightarrow> j \<in> set (izbre ix)"
    by (simp add: occ ix p(2) set_slots)
  moreover have "(z_bre, None) \<notin> set (varkeys (constraints m))"
    by (simp add: occ)
  moreover have "set (izbre ix) \<subseteq> set (iclimb1 ix)"
    using assms(3) by (auto simp: ix p(2) set_slots)
  moreover have "set (izbre ix) \<inter> set (icruise2 ix) = {}"
    using p(5,6) assms(3) by (auto simp: ix p(2) set_slots)
  moreover have "Ncruise2 < Nseg Nclimb1 Nclimb2 Ncruise2"
    using p(5,6) by (simp add: Nseg_def Nclimb_def Ncruise_def Nres_def Ntakeoff_def Ntrans_def
        Ncruise1_def Ncruiseclimb_def Ndecent_def Nlanding_def Nresclimb_def Nresdecent_def
        Nreslanding_def Nreshold_def)
  moreover have "\<forall>j. Ncruise2 \<le> j \<and> j < Nseg Nclimb1 Nclimb2 Ncruise2
               \<longrightarrow> (z_bre, Some j) \<notin> set (varkeys (constraints m))"
    by (simp add: occ)
  ultimately show ?thesis by blast
qed

theorem breguet_vector_slots_witness:
  "\<exists>m. CommercialAircraft 3 3 3 = Inr m \<and> build_indices 3 3 3 = Inr ix333
      \<and> declared_shape 3 3 3 z_bre = Vector 9
      \<and> izbre ix333 = [0, 1, 2] \<and> iclimb1 ix333 = [0, 1, 2] \<and> icruise2 ix333 = [6, 7, 8]
      \<and> (z_bre, Some 2) \<in> set (varkeys (constraints m))
      \<and> (z_bre, Some 3) \<notin> set (varkeys (constraints m))
      \<and> (z_bre, Some 8) \<notin> set (varkeys (constraints m))"
proof -
  obtain m where m: "CommercialAircraft 3 3 3 = Inr m"
    using sample_linked by blast
  have h: "(3::int) \<le> 3" by simp
  have l: "izbre ix333 = [0, 1, 2]" "iclimb1 ix333 = [0, 1, 2]" "icruise2 ix333 = [6, 7, 8]"
    by (simp_all add: ix333_def slots3)
  from breguet_vector_slots [OF m build333 h] m build333 l show ?thesis
    by (auto simp: Nseg333)
qed



section \<open>Restoring the swept substitutions (claim C8)\<close>



text \<open>
  Claim C8.  When \<^verbatim>\<open>poor_mans_contour\<close> returns, the model's substitutions for the
  \<open>x\<close>-sweep variable and for the \<open>z\<close>-sweep variable are what they were before the call
  (both were present), whatever the solver did to the model in between.
\<close>

theorem contour_restores_substitutions:
  assumes "poor_mans_contour ext model xvarname xsweep zvarname zsweep yvarname ylimits
             vref vrefname href hrefname = Inr (model', ax)"
  shows "xvarname \<in> dom (subs model) \<and> zvarname \<in> dom (subs model)
       \<and> subs model' xvarname = subs model xvarname
       \<and> subs model' zvarname = subs model zvarname"
proof -
  from assms obtain x_old where x: "subs model xvarname = Some x_old"
    by (cases "subs model xvarname") (simp_all add: poor_mans_contour_def py_getitem_def)
  from assms x obtain z_old where z: "subs model zvarname = Some z_old"
    by (cases "subs model zvarname") (simp_all add: poor_mans_contour_def py_getitem_def)
  let ?m1 = "model\<lparr>subs := (subs model)(xvarname \<mapsto> Sweep xsweep)\<rparr>"
  from assms x z obtain model2 ax0 lines0 where
    l: "zsweep_loop ext xvarname zvarname yvarname zsweep ?m1 subplots [] = Inr (model2, ax0, lines0)"
    by (cases "zsweep_loop ext xvarname zvarname yvarname zsweep ?m1 subplots []")
       (auto simp: poor_mans_contour_def py_getitem_def)
  let ?m4 = "model2\<lparr>subs := (subs model2)(xvarname \<mapsto> x_old, zvarname \<mapsto> z_old)\<rparr>"
  have "model' = ?m4"
    using assms x z l
    by (auto simp: poor_mans_contour_def py_getitem_def Let_def bind_err_def
        split: sum.splits if_splits prod.splits option.splits)
  then have "subs model' xvarname = subs model xvarname" "subs model' zvarname = subs model zvarname"
    using x z by auto
  with x z show ?thesis by auto
qed

theorem contour_restores_substitutions_witness:
  "\<exists>model' ax.
     poor_mans_contour demo_externals demo_model ''W'' [5, 6] ''h'' [3, 4] ''D'' [0, 10]
       None None (Some 1.5) (Some ''ref'') = Inr (model', ax)
     \<and> subs model' ''W'' = Some (Value 10) \<and> subs model' ''h'' = Some (Sweep [1, 2])"
proof -
  have "\<exists>r. poor_mans_contour demo_externals demo_model ''W'' [5, 6] ''h'' [3, 4] ''D'' [0, 10]
       None None (Some 1.5) (Some ''ref'') = Inr r"
    by (simp add: poor_mans_contour_def demo_externals_def demo_model_def py_getitem_def
        py_index_def axis_label_def truthy_def subplots_def plot_def Let_def)
  then obtain model' ax where r: "poor_mans_contour demo_externals demo_model ''W'' [5, 6] ''h'' [3, 4] ''D'' [0, 10]
       None None (Some 1.5) (Some ''ref'') = Inr (model', ax)"
    by force
  from contour_restores_substitutions [OF r] r show ?thesis
    by (auto simp: demo_model_def)
qed



end
